theory Spec2Isabelle
  imports Complex_Main
begin

section \<open>Python and numpy primitives\<close>

text \<open>
  The simulator is Python over numpy arrays. Python ints are \<open>int\<close>, float64 values are
  \<open>real\<close> numbers and complex128 values are \<open>complex\<close> numbers. Their arithmetic is
  exact, except in the two places where the rounding or the range of float64 decides
  what the program does: the addition inside the float modulo (\<open>py_fmod\<close>) is rounded
  to float64, and the power \<open>10 ** x\<close> (\<open>py_pow10\<close>) overflows and underflows as it
  does in float64. Where numpy would produce inf or nan the text says so. Exceptions
  are values of \<open>py_error\<close>; a computation that may raise returns \<open>py_error + 'a\<close>.
\<close>

datatype py_error =
  IndexError | ZeroDivisionError | ValueError | TypeError | OverflowError | NotANumber

text \<open>\<open>NotANumber\<close> is not a Python exception: it marks the places in the signal path
  where numpy divides by a float zero and carries on with inf or nan samples, which the
  real numbers cannot hold. The model stops there.\<close>

definition bindE :: "py_error + 'a \<Rightarrow> ('a \<Rightarrow> py_error + 'b) \<Rightarrow> py_error + 'b" where
  "bindE m f = (case m of Inl e \<Rightarrow> Inl e | Inr x \<Rightarrow> f x)"

text \<open>\<open>int(x)\<close> on a float truncates towards zero.\<close>

definition py_int :: "real \<Rightarrow> int" where
  "py_int x = (if 0 \<le> x then \<lfloor>x\<rfloor> else \<lceil>x\<rceil>)"

text \<open>Rounding a real number to float64: to the nearest number with 53 significant
  bits, ties to the even one. (For magnitudes in the normal range of float64; overflow
  and subnormal numbers are not modelled.)\<close>

definition round_half_even :: "real \<Rightarrow> int" where
  "round_half_even r =
     (let f = \<lfloor>r\<rfloor>
      in if r - of_int f < 1 / 2 then f
         else if 1 / 2 < r - of_int f then f + 1
         else if even f then f else f + 1)"

definition fl64 :: "real \<Rightarrow> real" where
  "fl64 x =
     (if x = 0 then 0
      else let e = \<lfloor>log 2 \<bar>x\<bar>\<rfloor>; ulp = 2 powr (of_int e - 52)
           in of_int (round_half_even (x / ulp)) * ulp)"

text \<open>C's \<open>fmod\<close>: the remainder with the sign of \<open>x\<close>; it is exact in float64.\<close>

definition c_fmod :: "real \<Rightarrow> real \<Rightarrow> real" where
  "c_fmod x y = x - of_int (py_int (x / y)) * y"

text \<open>\<open>x % y\<close> on floats, \<open>y\<close> not zero, as Python and numpy compute it: \<open>fmod(x, y)\<close>,
  and when that is not zero and its sign differs from the sign of \<open>y\<close>, the float
  sum \<open>fmod(x, y) + y\<close>. The sum is rounded, so for a tiny negative \<open>x\<close> and a
  positive \<open>y\<close> the result is \<open>y\<close> itself.\<close>

definition py_fmod :: "real \<Rightarrow> real \<Rightarrow> real" where
  "py_fmod x y =
     (let m = c_fmod x y
      in if m \<noteq> 0 \<and> ((y < 0) \<noteq> (m < 0)) then fl64 (m + y) else m)"

text \<open>\<open>xs[i]\<close> with an integer index: negative indices count from the end, anything
  outside \<open>[-len, len)\<close> raises IndexError.\<close>

definition np_index :: "'a list \<Rightarrow> int \<Rightarrow> py_error + 'a" where
  "np_index xs i =
     (let n = int (length xs); j = (if i < 0 then i + n else i)
      in if 0 \<le> j \<and> j < n then Inr (xs ! nat j) else Inl IndexError)"

text \<open>\<open>xs[i:j]\<close> with integer bounds: a negative bound counts from the end, and both
  bounds are clamped to the array.\<close>

definition slice_bound :: "nat \<Rightarrow> int \<Rightarrow> nat" where
  "slice_bound n i = (if i < 0 then nat (max (i + int n) 0) else min (nat i) n)"

definition py_slice :: "'a list \<Rightarrow> int \<Rightarrow> int \<Rightarrow> 'a list" where
  "py_slice xs i j =
     (let lo = slice_bound (length xs) i; hi = slice_bound (length xs) j
      in take (hi - lo) (drop lo xs))"

text \<open>\<open>xs[i:]\<close>.\<close>

definition py_slice_from :: "'a list \<Rightarrow> int \<Rightarrow> 'a list" where
  "py_slice_from xs i = drop (slice_bound (length xs) i) xs"

text \<open>\<open>np.arange(start, stop, step)\<close> on integers; a zero step raises.\<close>

definition arange_len :: "int \<Rightarrow> int \<Rightarrow> int \<Rightarrow> nat" where
  "arange_len start stop step =
     (if 0 < step then nat ((stop - start + step - 1) div step)
      else nat ((start - stop + (- step) - 1) div (- step)))"

definition np_arange :: "int \<Rightarrow> int \<Rightarrow> int \<Rightarrow> py_error + int list" where
  "np_arange start stop step =
     (if step = 0 then Inl ZeroDivisionError
      else Inr (map (\<lambda>k. start + int k * step) [0 ..< arange_len start stop step]))"

text \<open>\<open>np.delete(xs, i)\<close> with one integer index.\<close>

definition np_delete :: "'a list \<Rightarrow> int \<Rightarrow> py_error + 'a list" where
  "np_delete xs i =
     (let n = int (length xs); j = (if i < 0 then i + n else i)
      in if 0 \<le> j \<and> j < n then Inr (take (nat j) xs @ drop (Suc (nat j)) xs)
         else Inl IndexError)"

text \<open>\<open>np.zeros(n)\<close>: a negative length raises ValueError.\<close>

definition np_zeros :: "int \<Rightarrow> py_error + real list" where
  "np_zeros n = (if n < 0 then Inl ValueError else Inr (replicate (nat n) 0))"

text \<open>Elementwise product of two one-dimensional arrays, with numpy's broadcasting of a
  one-element array; other length mismatches raise ValueError.\<close>

definition np_multiply :: "real list \<Rightarrow> real list \<Rightarrow> py_error + real list" where
  "np_multiply xs ys =
     (if length xs = length ys then Inr (map2 (*) xs ys)
      else if length xs = 1 then Inr (map ((*) (hd xs)) ys)
      else if length ys = 1 then Inr (map (\<lambda>x. x * hd ys) xs)
      else Inl ValueError)"

text \<open>\<open>np.convolve(a, v)\<close> in its default full mode: entry \<open>n\<close> is the sum of
  \<open>a[m] * v[n - m]\<close> over the indices where both exist; an empty operand raises
  ValueError.\<close>

definition conv_at :: "real list \<Rightarrow> real list \<Rightarrow> nat \<Rightarrow> real" where
  "conv_at a v n =
     sum_list (map (\<lambda>m. a ! m * v ! (n - m))
                   (filter (\<lambda>m. m \<le> n \<and> n - m < length v) [0 ..< length a]))"

definition np_convolve :: "real list \<Rightarrow> real list \<Rightarrow> py_error + real list" where
  "np_convolve a v =
     (if a = [] \<or> v = [] then Inl ValueError
      else Inr (map (conv_at a v) [0 ..< length a + length v - 1]))"

text \<open>\<open>np.sinc(x)\<close> is \<open>sin(pi x) / (pi x)\<close>, and 1 at 0.\<close>

definition np_sinc :: "real \<Rightarrow> real" where
  "np_sinc x = (if x = 0 then 1 else sin (pi * x) / (pi * x))"

text \<open>\<open>np.hamming(M)\<close>: empty for \<open>M < 1\<close>, the single tap 1 for \<open>M = 1\<close>, else
  \<open>0.54 - 0.46 cos(2 pi n / (M - 1))\<close> for \<open>n = 0 .. M - 1\<close>.\<close>

definition np_hamming :: "int \<Rightarrow> real list" where
  "np_hamming M =
     (if M < 1 then []
      else if M = 1 then [1]
      else map (\<lambda>n. 0.54 - 0.46 * cos (2 * pi * real n / real_of_int (M - 1))) [0 ..< nat M])"

text \<open>\<open>np.mean\<close> of a non-empty array. (On an empty array numpy returns nan; the only
  caller below then adds a zero-length noise vector, so the value is not observed.)\<close>

definition np_mean :: "real list \<Rightarrow> real" where
  "np_mean xs = sum_list xs / real (length xs)"

text \<open>\<open>10 ** x\<close> for a Python float \<open>x\<close>: the power raises OverflowError when it
  rounds beyond the largest float64 (from \<open>2^1024 - 2^970\<close> on) and is 0.0 when it
  rounds to zero (up to \<open>2^-1075\<close>, half the smallest float64); in between it is taken
  exactly.\<close>

definition py_pow10 :: "real \<Rightarrow> py_error + real" where
  "py_pow10 x =
     (if 2 ^ 1024 - 2 ^ 970 \<le> (10::real) powr x then Inl OverflowError
      else if (10::real) powr x \<le> 1 / 2 ^ 1075 then Inr 0
      else Inr (10 powr x))"

text \<open>The last element of a Python list, \<open>xs[-1]\<close>.\<close>

definition list_last :: "'a list \<Rightarrow> py_error + 'a" where
  "list_last xs = (if xs = [] then Inl IndexError else Inr (last xs))"

section \<open>TimingErrorDetector\<close>

text \<open>
  \<open>scipy.signal.resample_poly(x, up, down)\<close> is a library routine. Its output has
  \<open>ceil(len(x) * up / down)\<close> samples; the sample values come from a polyphase FIR
  filter, which the model takes as the parameter \<open>phase\<close> (the value of output
  sample \<open>k\<close>).
\<close>

definition resample_poly ::
  "('a list \<Rightarrow> nat \<Rightarrow> nat \<Rightarrow> nat \<Rightarrow> 'a) \<Rightarrow> 'a list \<Rightarrow> nat \<Rightarrow> nat \<Rightarrow> 'a list" where
  "resample_poly phase x up down =
     map (phase x up down) [0 ..< (length x * up + down - 1) div down]"

text \<open>The object: \<open>self.upsample\<close> from the constructor, \<open>self.interpolated_pulse\<close>
  from \<open>interpolator\<close>, and the four traces that \<open>main\<close> stores.\<close>

record TimingErrorDetector =
  self_upsample :: int
  self_interpolated_pulse :: "complex list"
  self_offset :: "real list"
  self_error :: "real list"
  self_symbols_pred :: "real list"
  self_out_signal :: "complex list"

text \<open>\<open>interpolator\<close> assigns the local \<open>upsample = 32\<close> and resamples by it;
  \<open>self.upsample\<close> is not read.\<close>

definition interpolator ::
  "(complex list \<Rightarrow> nat \<Rightarrow> nat \<Rightarrow> nat \<Rightarrow> complex) \<Rightarrow> TimingErrorDetector \<Rightarrow> complex list
     \<Rightarrow> TimingErrorDetector \<times> complex list" where
  "interpolator phase self signal =
     (let upsample = 32;
          self' = self\<lparr>self_interpolated_pulse := resample_poly phase signal upsample 1\<rparr>
      in (self', self_interpolated_pulse self'))"

definition mueller_muller :: "complex \<Rightarrow> complex \<Rightarrow> real \<Rightarrow> real" where
  "mueller_muller val_cur val_prev symbol_prev =
     (let symbol_cur = sgn (Re val_cur)
      in Re (val_cur * cnj (of_real symbol_prev) - of_real symbol_cur * cnj val_prev))"

definition gardner :: "complex \<Rightarrow> complex \<Rightarrow> complex \<Rightarrow> real" where
  "gardner val_cur val_prev val_middle = Re (cnj val_middle * (val_cur - val_prev))"

definition earlylategate :: "complex \<Rightarrow> complex \<Rightarrow> real" where
  "earlylategate val_early val_late = (cmod val_early)\<^sup>2 - cmod val_late"

text \<open>The local variables of \<open>main\<close> that the loop changes.\<close>

record loop_state =
  i_cur :: int
  tau :: real
  v :: real
  symbol_prev :: real
  error :: "real list"
  offset :: "real list"
  symbols_pred :: "real list"
  out_signal :: "complex list"

text \<open>The \<open>if\<close>/\<open>elif\<close> chain on \<open>error_eq\<close>: the new \<open>error\<close> list. An unknown
  name appends nothing.\<close>

definition error_eq_branch ::
  "TimingErrorDetector \<Rightarrow> int \<Rightarrow> string \<Rightarrow> int \<Rightarrow> loop_state \<Rightarrow> int \<Rightarrow> complex \<Rightarrow> complex
     \<Rightarrow> py_error + real list" where
  "error_eq_branch self sps error_eq delta st offset_cur val_cur val_prev =
     (if error_eq = ''mueller''
      then Inr (error st @ [mueller_muller val_cur val_prev (symbol_prev st)])
      else if error_eq = ''gardner''
      then bindE (np_index (self_interpolated_pulse self)
                    (offset_cur - py_int (of_int (sps * self_upsample self) / 2)))
             (\<lambda>val_middle. Inr (error st @ [- gardner val_cur val_prev val_middle]))
      else if error_eq = ''earlylategate''
      then if delta = 0 then Inl ZeroDivisionError
           else let shift = py_int ((of_int sps / of_int delta) * of_int (self_upsample self))
                in if offset_cur + shift > int (length (self_interpolated_pulse self))
                   then bindE (list_last (error st)) (\<lambda>e. Inr (error st @ [e]))
                   else bindE (np_index (self_interpolated_pulse self) (offset_cur - shift))
                          (\<lambda>val_early.
                        bindE (np_index (self_interpolated_pulse self) (offset_cur + shift))
                          (\<lambda>val_late. Inr (error st @ [- earlylategate val_early val_late])))
      else Inr (error st))"

text \<open>
  One pass through the body of the \<open>while\<close> loop; \<open>offset_cur\<close> is the index of
  the current sample in the interpolated buffer. With \<open>sps = 0\<close> numpy's \<open>tau %= sps\<close>
  yields nan, \<open>i_cur\<close> stays where it is, and the next pass raises ValueError at
  \<open>int(tau * upsample)\<close>; the model raises that ValueError at the modulo.
\<close>

definition offset_cur :: "TimingErrorDetector \<Rightarrow> loop_state \<Rightarrow> int" where
  "offset_cur self st =
     i_cur st * self_upsample self + py_int (tau st * of_int (self_upsample self))"

definition loop_body ::
  "TimingErrorDetector \<Rightarrow> int \<Rightarrow> string \<Rightarrow> real \<Rightarrow> real \<Rightarrow> real \<Rightarrow> int \<Rightarrow> bool \<Rightarrow> loop_state
     \<Rightarrow> py_error + loop_state" where
  "loop_body self sps error_eq gain Kp Ki delta use_pi st =
     (let offset_cur = offset_cur self st
      in bindE (np_index (self_interpolated_pulse self) offset_cur) (\<lambda>val_cur.
         bindE (np_index (self_interpolated_pulse self) (offset_cur - sps * self_upsample self))
           (\<lambda>val_prev.
         bindE (error_eq_branch self sps error_eq delta st offset_cur val_cur val_prev)
           (\<lambda>error'.
         bindE (list_last error') (\<lambda>e.
           let symbol_prev' = sgn (Re val_cur);
               v' = (if use_pi then v st + Ki * e else v st);
               tau' = (if use_pi then tau st + (v' + Kp * e) else tau st + gain * e)
           in if sps = 0 then Inl ValueError
              else Inr \<lparr>i_cur = i_cur st + sps,
                        tau = py_fmod tau' (of_int sps),
                        v = v',
                        symbol_prev = symbol_prev',
                        error = error',
                        offset = offset st @ [py_fmod tau' (of_int sps)],
                        symbols_pred = symbols_pred st @ [symbol_prev'],
                        out_signal = out_signal st @ [val_cur]\<rparr>)))))"

text \<open>The \<open>while i_cur < num_samples\<close> loop. It need not end (a negative \<open>sps\<close> with
  \<open>upsample = 0\<close> never reaches the bound), so not returning is the value \<open>None\<close>.\<close>

partial_function (option) main_loop ::
  "TimingErrorDetector \<Rightarrow> int \<Rightarrow> int \<Rightarrow> string \<Rightarrow> real \<Rightarrow> real \<Rightarrow> real \<Rightarrow> int \<Rightarrow> bool
     \<Rightarrow> loop_state \<Rightarrow> (py_error + loop_state) option" where
  "main_loop self num_samples sps error_eq gain Kp Ki delta use_pi st =
     (if i_cur st < num_samples
      then (case loop_body self sps error_eq gain Kp Ki delta use_pi st of
              Inl e \<Rightarrow> Some (Inl e)
            | Inr st' \<Rightarrow> main_loop self num_samples sps error_eq gain Kp Ki delta use_pi st')
      else Some (Inr st))"

text \<open>\<open>main\<close>: \<open>tau0\<close> and \<open>symbol_prev0\<close> are the values of the parameters \<open>tau\<close>
  and \<open>symbol_prev\<close> at the call. The result is the object with its four traces stored
  and the returned tuple \<open>(offset, error, symbols_pred, out_signal)\<close>.\<close>

definition main ::
  "TimingErrorDetector \<Rightarrow> int \<Rightarrow> int \<Rightarrow> string \<Rightarrow> real \<Rightarrow> real \<Rightarrow> real \<Rightarrow> real \<Rightarrow> int \<Rightarrow> real
     \<Rightarrow> bool
     \<Rightarrow> (py_error + TimingErrorDetector \<times> real list \<times> real list \<times> real list \<times> complex list)
          option" where
  "main self num_samples sps error_eq tau0 gain Kp Ki delta symbol_prev0 use_pi =
     (case np_index (self_interpolated_pulse self) 0 of
        Inl e \<Rightarrow> Some (Inl e)
      | Inr first \<Rightarrow>
          (case main_loop self num_samples sps error_eq gain Kp Ki delta use_pi
                  \<lparr>i_cur = sps, tau = tau0, v = 0, symbol_prev = symbol_prev0,
                   error = [], offset = [], symbols_pred = [symbol_prev0],
                   out_signal = [first]\<rparr> of
             None \<Rightarrow> None
           | Some (Inl e) \<Rightarrow> Some (Inl e)
           | Some (Inr st) \<Rightarrow>
               Some (Inr (self\<lparr>self_offset := offset st, self_error := error st,
                                self_symbols_pred := symbols_pred st,
                                self_out_signal := out_signal st\<rparr>,
                          offset st, error st, symbols_pred st, out_signal st))))"

text \<open>
  numpy's scalar division does not raise on a zero divisor: it returns nan for \<open>0 / 0\<close> and
  a signed infinity otherwise. The statistics are the one place where the program can
  return such a value, so they have a result type that holds it.
\<close>

datatype np_float = Finite real | NaN | PosInf | NegInf

definition np_true_divide :: "int \<Rightarrow> int \<Rightarrow> np_float" where
  "np_true_divide a b =
     (if b = 0 then (if a = 0 then NaN else if 0 < a then PosInf else NegInf)
      else Finite (of_int a / of_int b))"

definition np_times :: "np_float \<Rightarrow> real \<Rightarrow> np_float" where
  "np_times x c =
     (case x of
        Finite r \<Rightarrow> Finite (r * c)
      | NaN \<Rightarrow> NaN
      | PosInf \<Rightarrow> (if c = 0 then NaN else if 0 < c then PosInf else NegInf)
      | NegInf \<Rightarrow> (if c = 0 then NaN else if 0 < c then NegInf else PosInf))"

text \<open>\<open>np.sum(np.array(preds) == symbols)\<close>: the number of positions that agree. Arrays
  of equal length are compared elementwise and a one-element array is broadcast; other
  shapes do not broadcast, which raises ValueError.\<close>

definition num_equal :: "real list \<Rightarrow> int list \<Rightarrow> py_error + int" where
  "num_equal preds symbols =
     (if length preds = length symbols
      then Inr (int (length (filter (\<lambda>(p, s). p = of_int s) (zip preds symbols))))
      else if length preds = 1
      then Inr (int (length (filter (\<lambda>s. hd preds = of_int s) symbols)))
      else if length symbols = 1
      then Inr (int (length (filter (\<lambda>p. p = of_int (hd symbols)) preds)))
      else Inl ValueError)"

definition results ::
  "TimingErrorDetector \<Rightarrow> int list \<Rightarrow> bool \<Rightarrow> py_error + np_float \<times> np_float \<times> real" where
  "results self symbols keep_all =
     bindE (if keep_all then num_equal (self_symbols_pred self) symbols
            else num_equal (py_slice_from (self_symbols_pred self) 30)
                           (py_slice_from symbols 30))
       (\<lambda>num_correct.
          let num_symbols = (if keep_all then int (length symbols)
                             else int (length (py_slice_from symbols 30)));
              perc_correct = np_times (np_true_divide num_correct num_symbols) 100;
              ber = np_times (np_true_divide (num_symbols - num_correct) num_symbols) 100
          in bindE (list_last (self_offset self))
               (\<lambda>final_offset. Inr (perc_correct, ber, final_offset)))"

text \<open>Auxiliary notions for the statements about \<open>main\<close>: the names that the
  \<open>if\<close>/\<open>elif\<close> chain knows, and the values that \<open>i_cur\<close> takes from \<open>i\<close> on.\<close>

definition known_metric :: "string \<Rightarrow> bool" where
  "known_metric error_eq \<longleftrightarrow>
     error_eq = ''mueller'' \<or> error_eq = ''gardner'' \<or> error_eq = ''earlylategate''"

definition visited :: "int \<Rightarrow> int \<Rightarrow> int \<Rightarrow> int set" where
  "visited i num_samples sps = {m. i \<le> m \<and> m < num_samples \<and> sps dvd (m - i)}"

section \<open>PulseShaper\<close>

text \<open>
  Modelled from the spec: \<open>commpy.rcosfilter(N, alpha, Ts, Fs)\<close>, which \<open>createrc\<close>
  calls, is a library routine whose code is not among the sources. The spec describes
  its result as the impulse response of a raised-cosine filter that peaks at the centre
  and crosses zero at the multiples of \<open>sps\<close>. The definition is that impulse response,
  sampled as the library samples it: at the times \<open>t = (x - N/2) / Fs\<close> for
  \<open>x = 0 .. N - 1\<close>, with the value 1 at \<open>t = 0\<close> and the limit value at the two
  poles \<open>t = Ts / (2 alpha)\<close> and \<open>t = - Ts / (2 alpha)\<close>. It returns the times and the
  taps.
\<close>

definition rc_tap :: "real \<Rightarrow> real \<Rightarrow> real \<Rightarrow> real" where
  "rc_tap alpha Ts t =
     (if t = 0 then 1
      else if alpha \<noteq> 0 \<and> t = Ts / (2 * alpha)
      then (pi / 4) * (sin (pi * t / Ts) / (pi * t / Ts))
      else if alpha \<noteq> 0 \<and> t = - Ts / (2 * alpha)
      then (pi / 4) * (sin (pi * t / Ts) / (pi * t / Ts))
      else (sin (pi * t / Ts) / (pi * t / Ts))
           * (cos (pi * alpha * t / Ts) / (1 - ((2 * alpha * t) / Ts) * ((2 * alpha * t) / Ts))))"

definition rcosfilter :: "int \<Rightarrow> real \<Rightarrow> real \<Rightarrow> real \<Rightarrow> py_error + real list \<times> real list" where
  "rcosfilter N alpha Ts Fs =
     (if Fs = 0 then Inl ZeroDivisionError
      else if N < 0 then Inl ValueError
      else let T_delta = 1 / Fs;
               time_idx = map (\<lambda>x. (real x - of_int N / 2) * T_delta) [0 ..< nat N];
               h_rc = map (\<lambda>x. rc_tap alpha Ts ((real x - of_int N / 2) * T_delta)) [0 ..< nat N]
           in Inr (time_idx, h_rc))"

text \<open>The result of \<open>noise\<close> is a float64 array or a complex128 array.\<close>

datatype samples = Float64 "real list" | Complex128 "complex list"

text \<open>The object. \<open>int_delay\<close>, \<open>frac_delay\<close>, \<open>sinc_taps\<close> and \<open>snr\<close> may be
  \<open>None\<close>. The attributes that the methods assign hold the empty array until then.\<close>

record PulseShaper =
  self_rc_taps :: int
  self_rolloff :: real
  self_sps :: int
  self_raised_cosine :: "real list"
  self_zero_crossings :: "int list"
  self_int_delay :: "int option"
  self_frac_delay :: "real option"
  self_sinc_taps :: "int option"
  self_snr :: "real option"
  self_pulse_shaped :: "real list"
  self_pulse_shaped_delayed :: "real list"
  self_pulse_shaped_delayed_noise :: samples

text \<open>\<open>createrc\<close>: the kernel is \<open>rcosfilter(rc_taps + 1, rolloff, sps, 1)\<close> without
  its first tap. (With \<open>sps = 0\<close> the taps would be nan in numpy; \<open>np.arange\<close> then
  raises on the zero step, so no kernel is stored.)\<close>

definition createrc :: "PulseShaper \<Rightarrow> py_error + PulseShaper \<times> real list" where
  "createrc self =
     bindE (rcosfilter (self_rc_taps self + 1) (self_rolloff self) (of_int (self_sps self)) 1)
       (\<lambda>(time_idx, raised_cosine).
     bindE (np_arange (self_rc_taps self div 2 - self_sps self) (- 1) (- self_sps self))
       (\<lambda>below.
     bindE (np_arange (self_rc_taps self div 2) (self_rc_taps self) (self_sps self))
       (\<lambda>above.
     let zero_crossings = rev below @ above
     in bindE (np_delete zero_crossings (int (length zero_crossings) div 2))
       (\<lambda>zero_crossings'.
          let self' = self\<lparr>self_raised_cosine := py_slice_from raised_cosine 1,
                            self_zero_crossings := zero_crossings'\<rparr>
          in Inr (self', self_raised_cosine self')))))"

text \<open>The constructor.\<close>

definition PulseShaper_init ::
  "int \<Rightarrow> real \<Rightarrow> int \<Rightarrow> int option \<Rightarrow> real option \<Rightarrow> int option \<Rightarrow> real option
     \<Rightarrow> py_error + PulseShaper" where
  "PulseShaper_init rc_taps rolloff sps int_delay frac_delay sinc_taps snr =
     bindE (createrc \<lparr>self_rc_taps = rc_taps, self_rolloff = rolloff, self_sps = sps,
                       self_raised_cosine = [], self_zero_crossings = [],
                       self_int_delay = None, self_frac_delay = None, self_sinc_taps = None,
                       self_snr = None, self_pulse_shaped = [], self_pulse_shaped_delayed = [],
                       self_pulse_shaped_delayed_noise = Float64 []\<rparr>)
       (\<lambda>(self, taps).
          Inr (self\<lparr>self_int_delay := int_delay, self_frac_delay := frac_delay,
                    self_sinc_taps := sinc_taps, self_snr := snr\<rparr>))"

text \<open>The slice \<open>[(taps - 1) // 2 : -(taps - 1) // 2]\<close> that discards the edges; Python
  reads the upper bound as \<open>(-(taps - 1)) // 2\<close>.\<close>

definition trim_edges :: "int \<Rightarrow> real list \<Rightarrow> real list" where
  "trim_edges taps xs = py_slice xs ((taps - 1) div 2) ((- (taps - 1)) div 2)"

definition pulseshaping :: "PulseShaper \<Rightarrow> real list \<Rightarrow> bool \<Rightarrow> py_error + PulseShaper \<times> real list" where
  "pulseshaping self pulses keep_edges =
     bindE (np_convolve pulses (self_raised_cosine self))
       (\<lambda>full.
          let self' = self\<lparr>self_pulse_shaped :=
                             (if \<not> keep_edges then trim_edges (self_rc_taps self) full else full)\<rparr>
          in Inr (self', self_pulse_shaped self'))"

text \<open>The first stage of \<open>fractionaldelay\<close>: the integer delay. \<open>if self.int_delay\<close> is
  false for \<open>None\<close> and for 0.\<close>

definition integer_delay :: "PulseShaper \<Rightarrow> py_error + real list" where
  "integer_delay self =
     (case self_int_delay self of
        None \<Rightarrow> Inr (self_pulse_shaped self)
      | Some d \<Rightarrow>
          if d = 0 then Inr (self_pulse_shaped self)
          else bindE (np_zeros d) (\<lambda>zeros. Inr (zeros @ py_slice (self_pulse_shaped self) 0 (- d))))"

text \<open>The windowed sinc of the second stage, for \<open>sinc_taps = M\<close> and a delay \<open>d\<close>,
  divided by its sum.\<close>

definition sinc_delay_kernel :: "int \<Rightarrow> real \<Rightarrow> py_error + real list" where
  "sinc_delay_kernel M d =
     bindE (np_arange ((- (M - 1)) div 2) (M div 2 + 1) 1)
       (\<lambda>n.
     bindE (np_multiply (map (\<lambda>k. np_sinc (of_int k - d)) n) (np_hamming M))
       (\<lambda>sinc_delay.
          if sum_list sinc_delay = 0 \<and> sinc_delay \<noteq> [] then Inl NotANumber
          else Inr (map (\<lambda>x. x / sum_list sinc_delay) sinc_delay)))"

text \<open>\<open>fractionaldelay\<close>; \<open>if self.frac_delay\<close> is false for \<open>None\<close> and for 0.\<close>

definition fractionaldelay :: "PulseShaper \<Rightarrow> bool \<Rightarrow> py_error + PulseShaper \<times> real list" where
  "fractionaldelay self keep_edges =
     bindE (integer_delay self)
       (\<lambda>pulse_shaped_int_delayed.
          if self_frac_delay self \<noteq> None \<and> self_frac_delay self \<noteq> Some 0
          then (case self_sinc_taps self of
                  None \<Rightarrow> Inl TypeError
                | Some M \<Rightarrow>
                    bindE (sinc_delay_kernel M (the (self_frac_delay self)))
                      (\<lambda>sinc_delay.
                    bindE (np_convolve pulse_shaped_int_delayed sinc_delay)
                      (\<lambda>full.
                         let self' = self\<lparr>self_pulse_shaped_delayed :=
                                            (if \<not> keep_edges then trim_edges M full else full)\<rparr>
                         in Inr (self', self_pulse_shaped_delayed self'))))
          else let self' = self\<lparr>self_pulse_shaped_delayed := pulse_shaped_int_delayed\<rparr>
               in Inr (self', self_pulse_shaped_delayed self'))"

text \<open>
  \<open>noise\<close>. The random source is explicit: \<open>z1\<close> and \<open>z2\<close> give the standard normal
  draws of the first and the second request, so that \<open>np.random.normal(0, s, n)\<close> is
  \<open>0 + s * z1 k\<close> and \<open>randn(n) + 1j * randn(n)\<close> is \<open>Complex (z1 k) (z2 k)\<close>. When
  \<open>10 ** (snr / 10)\<close> has underflowed to 0.0, numpy's division gives nan or inf (it
  does not raise) and every noise sample is nan or inf; on an empty signal there are
  no samples and the result is the empty array.
\<close>

definition noise ::
  "(nat \<Rightarrow> real) \<Rightarrow> (nat \<Rightarrow> real) \<Rightarrow> PulseShaper \<Rightarrow> bool \<Rightarrow> py_error + PulseShaper \<times> samples" where
  "noise z1 z2 self is_complex =
     (case self_snr self of
        None \<Rightarrow> Inl TypeError
      | Some snr \<Rightarrow>
          bindE (py_pow10 (snr / 10))
            (\<lambda>snr_linear.
               let x = self_pulse_shaped_delayed self;
                   pulse_power = np_mean (map (\<lambda>a. a\<^sup>2) x);
                   variance = pulse_power / snr_linear;
                   noisy =
                     (if is_complex
                      then Complex128
                             (map2 (+) (map of_real x)
                                (map (\<lambda>k. of_real (sqrt (variance / 2)) * Complex (z1 k) (z2 k))
                                     [0 ..< length x]))
                      else Float64
                             (map2 (+) x
                                (map (\<lambda>k. 0 + sqrt variance * z1 k) [0 ..< length x])));
                   self' = self\<lparr>self_pulse_shaped_delayed_noise := noisy\<rparr>
               in if snr_linear = 0 \<and> x \<noteq> [] then Inl NotANumber
                  else Inr (self', self_pulse_shaped_delayed_noise self')))"

section \<open>Properties of the timing loop\<close>

subsection \<open>Basic facts\<close>

lemma bindE_Inr_iff: "bindE m f = Inr y \<longleftrightarrow> (\<exists>x. m = Inr x \<and> f x = Inr y)"
  by (cases m) (simp_all add: bindE_def)

lemma list_last_Inr_iff: "list_last xs = Inr e \<longleftrightarrow> xs \<noteq> [] \<and> e = last xs"
  by (auto simp: list_last_def)

lemma error_eq_branch_length:
  assumes "error_eq_branch self sps error_eq delta st oc vc vp = Inr es"
  shows "length es
           = (if known_metric error_eq then Suc (length (error st)) else length (error st))"
  using assms
  by (auto simp: error_eq_branch_def known_metric_def bindE_Inr_iff list_last_Inr_iff Let_def
           split: if_splits)

text \<open>What one pass of the loop body does to the state when it does not raise.\<close>

lemma loop_body_Inr:
  assumes "loop_body self sps error_eq gain Kp Ki delta use_pi st = Inr st'"
  shows "sps \<noteq> 0"
    and "i_cur st' = i_cur st + sps"
    and "offset st' = offset st @ [tau st']"
    and "\<exists>x. tau st' = py_fmod x (of_int sps)"
    and "length (error st')
           = (if known_metric error_eq then Suc (length (error st)) else length (error st))"
    and "error st' \<noteq> []"
    and "\<exists>s. symbols_pred st' = symbols_pred st @ [s]"
    and "\<exists>c. out_signal st' = out_signal st @ [c]"
  using assms
  by (auto simp: loop_body_def bindE_Inr_iff list_last_Inr_iff Let_def
           dest: error_eq_branch_length split: if_splits)

lemma loop_body_unknown_metric:
  assumes "\<not> known_metric error_eq" "error st = []"
  shows "loop_body self sps error_eq gain Kp Ki delta use_pi st \<noteq> Inr st'"
proof
  assume a: "loop_body self sps error_eq gain Kp Ki delta use_pi st = Inr st'"
  from loop_body_Inr(5)[OF a] loop_body_Inr(6)[OF a] assms show False by simp
qed

subsection \<open>The indices that the loop visits\<close>

lemma finite_visited: "finite (visited i n sps)"
proof -
  have "visited i n sps \<subseteq> {i ..< n}" by (auto simp: visited_def)
  then show ?thesis by (rule finite_subset) simp
qed

lemma visited_done: "\<not> i < n \<Longrightarrow> visited i n sps = {}"
  by (auto simp: visited_def)

lemma visited_step:
  assumes "0 < sps" "i < n"
  shows "visited i n sps = insert i (visited (i + sps) n sps)"
    and "i \<notin> visited (i + sps) n sps"
proof -
  show "i \<notin> visited (i + sps) n sps" using assms by (simp add: visited_def)
  show "visited i n sps = insert i (visited (i + sps) n sps)"
  proof (rule set_eqI, rule iffI)
    fix m assume m: "m \<in> visited i n sps"
    show "m \<in> insert i (visited (i + sps) n sps)"
    proof (cases "m = i")
      case True then show ?thesis by simp
    next
      case False
      from m have d: "sps dvd (m - i)" and lt: "m < n" and ge: "i \<le> m"
        by (auto simp: visited_def)
      from False ge have "0 < m - i" by simp
      with d assms(1) have "sps \<le> m - i" by (simp add: zdvd_imp_le)
      moreover from d have "sps dvd (m - (i + sps))"
        by (metis diff_diff_add dvd_diff dvd_refl)
      ultimately show ?thesis using lt by (simp add: visited_def)
    qed
  next
    fix m assume "m \<in> insert i (visited (i + sps) n sps)"
    then consider "m = i" | "m \<in> visited (i + sps) n sps" by auto
    then show "m \<in> visited i n sps"
    proof cases
      case 1 then show ?thesis using assms by (simp add: visited_def)
    next
      case 2
      then have d: "sps dvd (m - (i + sps))" and lt: "m < n" and ge: "i + sps \<le> m"
        by (auto simp: visited_def)
      from d have "sps dvd (m - (i + sps) + sps)" by (simp only: dvd_add_triv_right_iff)
      then have "sps dvd (m - i)" by (simp add: algebra_simps)
      then show ?thesis using lt ge assms by (simp add: visited_def)
    qed
  qed
qed

lemma card_visited_step:
  assumes "0 < sps" "i < n"
  shows "card (visited i n sps) = Suc (card (visited (i + sps) n sps))"
  using visited_step[OF assms] finite_visited by simp

lemma visited_from_sps:
  assumes "0 < sps"
  shows "visited sps num_samples sps = {m. 0 < m \<and> m < num_samples \<and> sps dvd m}"
proof -
  have "\<And>m. sps dvd (m - sps) \<longleftrightarrow> sps dvd m"
    by (metis dvd_diff dvd_refl dvd_add_triv_right_iff diff_add_cancel)
  moreover have "\<And>m. 0 < m \<Longrightarrow> sps dvd m \<Longrightarrow> sps \<le> m"
    by (simp add: zdvd_imp_le)
  ultimately show ?thesis using assms by (auto simp: visited_def)
qed

text \<open>The number of positive multiples of \<open>sps\<close> below \<open>n\<close>.\<close>

lemma card_positive_multiples:
  fixes sps n :: int
  assumes "0 < sps"
  shows "card {m. 0 < m \<and> m < n \<and> sps dvd m} = nat ((n - 1) div sps)"
proof -
  let ?q = "(n - 1) div sps"
  have "{m. 0 < m \<and> m < n \<and> sps dvd m} = (\<lambda>k. k * sps) ` {1 .. ?q}"
  proof (rule set_eqI, rule iffI)
    fix m assume "m \<in> {m. 0 < m \<and> m < n \<and> sps dvd m}"
    then have m: "0 < m" "m \<le> n - 1" "sps dvd m" by auto
    from m(3) obtain k where k: "m = k * sps" by (auto simp: dvd_def mult.commute)
    from m(1) k assms have "0 < k" by (simp add: zero_less_mult_iff)
    moreover from m(2) have "m div sps \<le> ?q" using assms by (intro zdiv_mono1) simp_all
    then have "k \<le> ?q" using k assms by simp
    ultimately show "m \<in> (\<lambda>k. k * sps) ` {1 .. ?q}" using k by auto
  next
    fix m assume "m \<in> (\<lambda>k. k * sps) ` {1 .. ?q}"
    then obtain k where k0: "m = k * sps" "k \<in> {1 .. ?q}" by (rule imageE)
    then have k: "m = k * sps" "1 \<le> k" "k \<le> ?q" by simp_all
    from k(3) assms have "k * sps \<le> ?q * sps" by (intro mult_right_mono) simp_all
    also have "?q * sps = (n - 1) - (n - 1) mod sps" by (simp add: minus_mod_eq_div_mult)
    also have "\<dots> \<le> n - 1" using pos_mod_sign[OF assms, of "n - 1"] by linarith
    finally have "m < n" using k(1) by simp
    moreover from k(2) assms have "0 < m" unfolding k(1) by (simp add: zero_less_mult_iff)
    ultimately show "m \<in> {m. 0 < m \<and> m < n \<and> sps dvd m}" using k(1) by simp
  qed
  moreover have "inj_on (\<lambda>k. k * sps) {1 .. ?q}" using assms by (auto simp: inj_on_def)
  ultimately have "card {m. 0 < m \<and> m < n \<and> sps dvd m} = card {1 .. ?q}"
    by (simp add: card_image)
  then show ?thesis by simp
qed

subsection \<open>The loop returns, and what it returns\<close>

text \<open>With a positive \<open>sps\<close> the loop ends: the distance from \<open>i_cur\<close> to
  \<open>num_samples\<close> shrinks with every pass.\<close>

lemma main_loop_total:
  assumes "0 < sps"
  shows "\<exists>r. main_loop self num_samples sps error_eq gain Kp Ki delta use_pi st = Some r"
proof (induction "nat (num_samples - i_cur st)" arbitrary: st rule: less_induct)
  case less
  show ?case
  proof (cases "i_cur st < num_samples")
    case False
    then show ?thesis by (subst main_loop.simps) simp
  next
    case True
    show ?thesis
    proof (cases "loop_body self sps error_eq gain Kp Ki delta use_pi st")
      case (Inl e)
      with True show ?thesis by (subst main_loop.simps) simp
    next
      case (Inr st')
      from loop_body_Inr(2)[OF Inr] assms True
      have "nat (num_samples - i_cur st') < nat (num_samples - i_cur st)" by simp
      from less[OF this] Inr True show ?thesis by (subst main_loop.simps) simp
    qed
  qed
qed

lemma main_loop_traces:
  assumes "0 < sps"
    and "main_loop self num_samples sps error_eq gain Kp Ki delta use_pi st = Some (Inr fin)"
  shows "length (offset fin) = length (offset st) + card (visited (i_cur st) num_samples sps)
       \<and> (known_metric error_eq \<longrightarrow>
            length (error fin) = length (error st) + card (visited (i_cur st) num_samples sps))
       \<and> length (symbols_pred fin)
            = length (symbols_pred st) + card (visited (i_cur st) num_samples sps)
       \<and> length (out_signal fin)
            = length (out_signal st) + card (visited (i_cur st) num_samples sps)
       \<and> take (length (symbols_pred st)) (symbols_pred fin) = symbols_pred st"
  using assms(2)
proof (induction "nat (num_samples - i_cur st)" arbitrary: st rule: less_induct)
  case less
  show ?case
  proof (cases "i_cur st < num_samples")
    case False
    with less.prems have "fin = st" by (subst (asm) main_loop.simps) simp
    with False show ?thesis by (simp add: visited_done)
  next
    case True
    show ?thesis
    proof (cases "loop_body self sps error_eq gain Kp Ki delta use_pi st")
      case (Inl e)
      with True less.prems show ?thesis by (subst (asm) main_loop.simps) simp
    next
      case (Inr st')
      note b = loop_body_Inr[OF Inr]
      from b(2) assms(1) True
      have m: "nat (num_samples - i_cur st') < nat (num_samples - i_cur st)" by simp
      from less.prems Inr True
      have r: "main_loop self num_samples sps error_eq gain Kp Ki delta use_pi st'
                 = Some (Inr fin)"
        by (subst (asm) main_loop.simps) simp
      note ih = less.hyps[OF m r]
      have c: "card (visited (i_cur st) num_samples sps)
                 = Suc (card (visited (i_cur st') num_samples sps))"
        using card_visited_step[OF assms(1) True] b(2) by simp
      from b(7) obtain s where s: "symbols_pred st' = symbols_pred st @ [s]" by blast
      from b(8) obtain cc where cc: "out_signal st' = out_signal st @ [cc]" by blast
      have p1: "length (offset fin)
                  = length (offset st) + card (visited (i_cur st) num_samples sps)"
        using ih c b(3) by simp
      have p2: "known_metric error_eq \<longrightarrow>
            length (error fin) = length (error st) + card (visited (i_cur st) num_samples sps)"
        using ih c b(5) by simp
      have p3: "length (symbols_pred fin)
            = length (symbols_pred st) + card (visited (i_cur st) num_samples sps)"
        using ih c s by simp
      have p4: "length (out_signal fin)
            = length (out_signal st) + card (visited (i_cur st) num_samples sps)"
        using ih c cc by simp
      have "take (length (symbols_pred st')) (symbols_pred fin) = symbols_pred st'"
        using ih by simp
      then have "take (length (symbols_pred st))
                   (take (length (symbols_pred st')) (symbols_pred fin))
                  = take (length (symbols_pred st)) (symbols_pred st')" by simp
      then have p5: "take (length (symbols_pred st)) (symbols_pred fin) = symbols_pred st"
        using s by (simp add: min_def)
      from p1 p2 p3 p4 p5 show ?thesis by blast
    qed
  qed
qed

lemma main_Inr:
  assumes "main self num_samples sps error_eq tau0 gain Kp Ki delta symbol_prev0 use_pi
             = Some (Inr (self', offs, errs, syms, outs))"
  shows "\<exists>first fin.
           main_loop self num_samples sps error_eq gain Kp Ki delta use_pi
             \<lparr>i_cur = sps, tau = tau0, v = 0, symbol_prev = symbol_prev0,
              error = [], offset = [], symbols_pred = [symbol_prev0],
              out_signal = [first]\<rparr> = Some (Inr fin)
           \<and> offs = offset fin \<and> errs = error fin \<and> syms = symbols_pred fin
           \<and> outs = out_signal fin"
  using assms
  by (auto simp: main_def split: sum.splits option.splits)

text \<open>\<open>main\<close> with a positive \<open>sps\<close> always comes back, with a result or an exception.\<close>

lemma main_returns:
  assumes "0 < sps"
  shows "\<exists>r. main self num_samples sps error_eq tau0 gain Kp Ki delta symbol_prev0 use_pi
               = Some r"
proof (cases "np_index (self_interpolated_pulse self) 0")
  case (Inl e)
  then show ?thesis by (simp add: main_def)
next
  case (Inr first)
  from main_loop_total[OF assms] obtain r where
    "main_loop self num_samples sps error_eq gain Kp Ki delta use_pi
             \<lparr>i_cur = sps, tau = tau0, v = 0, symbol_prev = symbol_prev0,
              error = [], offset = [], symbols_pred = [symbol_prev0],
              out_signal = [first]\<rparr> = Some r" by blast
  with Inr show ?thesis by (cases r) (simp_all add: main_def)
qed

text \<open>One pass of the loop body on concrete data.\<close>

lemma loop_body_example_pass:
  "loop_body \<lparr>self_upsample = 1, self_interpolated_pulse = [1, - 1, 1], self_offset = [],
         self_error = [], self_symbols_pred = [], self_out_signal = []\<rparr>
        1 ''mueller'' (1 / 2) (1 / 100) (1 / 10000) 4 False
        \<lparr>i_cur = 1, tau = 0, v = 0, symbol_prev = 0, error = [], offset = [],
         symbols_pred = [0], out_signal = [1]\<rparr>
     = Inr \<lparr>i_cur = 2, tau = 1 / 2, v = 0, symbol_prev = - 1, error = [1], offset = [1 / 2],
         symbols_pred = [0, - 1], out_signal = [1, - 1]\<rparr>"
  by (simp add: loop_body_def offset_cur_def error_eq_branch_def
        np_index_def py_int_def py_fmod_def c_fmod_def bindE_def list_last_def mueller_muller_def
        Let_def)

text \<open>A run that is used as the concrete instance below: three interpolated samples at
  \<open>upsample = 1\<close>, one sample per symbol, the Mueller-Muller metric and gain 1/2.\<close>

lemma main_example_run:
  "main \<lparr>self_upsample = 1, self_interpolated_pulse = [1, - 1, 1], self_offset = [],
         self_error = [], self_symbols_pred = [], self_out_signal = []\<rparr>
        3 1 ''mueller'' 0 (1 / 2) (1 / 100) (1 / 10000) 4 0 False
     = Some (Inr (\<lparr>self_upsample = 1, self_interpolated_pulse = [1, - 1, 1],
                    self_offset = [1 / 2, 1 / 2], self_error = [1, 0],
                    self_symbols_pred = [0, - 1, 1], self_out_signal = [1, - 1, 1]\<rparr>,
                  [1 / 2, 1 / 2], [1, 0], [0, - 1, 1], [1, - 1, 1]))"
  by (simp add: main_def main_loop.simps loop_body_def offset_cur_def error_eq_branch_def
        np_index_def py_int_def py_fmod_def c_fmod_def bindE_def list_last_def mueller_muller_def
        Let_def)

subsection \<open>Claims about the timing loop\<close>

text \<open>
  C1. The claim: \<open>interpolator\<close> resamples by the configured factor, and \<open>main\<close> reads
  its current sample at \<open>upsample * i_cur + round(tau * upsample)\<close>. The code does
  neither. \<open>interpolator\<close> resamples by the constant 32 whatever \<open>self.upsample\<close> is:
  the buffer has \<open>32 * len(signal)\<close> samples, so a detector configured with factor 16
  gets 128 samples from 4, not 64. And \<open>main\<close> truncates \<open>tau * upsample\<close> with
  \<open>int\<close>: at \<open>i_cur = 8\<close>, \<open>tau = 0.05\<close> and factor 32 it reads index 257, where
  rounding gives 258.
\<close>

theorem interpolator_ignores_configured_upsample:
  "length (snd (interpolator phase self signal)) = 32 * length signal
   \<and> length (snd (interpolator phase
        \<lparr>self_upsample = 16, self_interpolated_pulse = [], self_offset = [],
         self_error = [], self_symbols_pred = [], self_out_signal = []\<rparr> [1, - 1, 1, - 1]))
       \<noteq> 16 * length [1, - 1, 1, - 1 :: complex]
   \<and> offset_cur
        \<lparr>self_upsample = 32, self_interpolated_pulse = [], self_offset = [],
         self_error = [], self_symbols_pred = [], self_out_signal = []\<rparr>
        \<lparr>i_cur = 8, tau = 5 / 100, v = 0, symbol_prev = 0, error = [], offset = [],
         symbols_pred = [0], out_signal = []\<rparr> = 257
   \<and> 32 * 8 + round ((5 / 100 :: real) * 32) = 258"
  by (simp add: interpolator_def resample_poly_def offset_cur_def py_int_def round_def)

text \<open>
  C2. The claim: with the Early-Late Gate metric a forward offset past the end of the
  buffer never makes the loop fail, also on the first pass and also when the offset is
  exactly the buffer length. The code fails in both cases. A detector with factor 32
  interpolates 10 samples to 320; with \<open>sps = 8\<close> and \<open>delta = 4\<close> the first pass has
  \<open>offset_cur = 256\<close> and \<open>shift = 64\<close>, the test \<open>320 > 320\<close> is false and the read at
  index 320 raises IndexError. With 9 samples the buffer has 288 samples, the test
  \<open>320 > 288\<close> is true, and \<open>error[-1]\<close> on the still empty list raises IndexError.
\<close>

theorem earlylategate_boundary_raises:
  "main (fst (interpolator phase
           \<lparr>self_upsample = 32, self_interpolated_pulse = [], self_offset = [],
            self_error = [], self_symbols_pred = [], self_out_signal = []\<rparr>
           (replicate 10 0)))
        10 8 ''earlylategate'' 0 (1 / 10) (1 / 100) (1 / 10000) 4 0 False
     = Some (Inl IndexError)
   \<and> main (fst (interpolator phase
           \<lparr>self_upsample = 32, self_interpolated_pulse = [], self_offset = [],
            self_error = [], self_symbols_pred = [], self_out_signal = []\<rparr>
           (replicate 9 0)))
        9 8 ''earlylategate'' 0 (1 / 10) (1 / 100) (1 / 10000) 4 0 False
     = Some (Inl IndexError)"
  by (simp add: interpolator_def resample_poly_def main_def main_loop.simps loop_body_def
        offset_cur_def error_eq_branch_def np_index_def py_int_def bindE_def list_last_def
        Let_def)

text \<open>
  C3. The claim: \<open>results\<close> with \<open>keep_all = False\<close> on at most 30 true symbols is
  rejected with an error and returns no statistics. The code has no such check: for
  three symbols both slices \<open>[30:]\<close> are empty, the count and the number of symbols are
  0, numpy's \<open>0 / 0\<close> is nan, and \<open>results\<close> returns \<open>(nan, nan, final_offset)\<close>.
\<close>

theorem results_short_run_returns_nan:
  "results \<lparr>self_upsample = 32, self_interpolated_pulse = [],
            self_offset = [1 / 10, 2 / 10], self_error = [1 / 2, 1 / 2],
            self_symbols_pred = [0, 1, - 1], self_out_signal = []\<rparr>
           [1, 1, - 1] False
     = Inr (NaN, NaN, 2 / 10)"
  by (simp add: results_def num_equal_def py_slice_from_def slice_bound_def
        np_true_divide_def np_times_def bindE_def list_last_def)

text \<open>The float modulo at a tiny negative number: \<open>1 - 2^-70\<close> is not a float64, the
  nearest one is 1.\<close>

lemma fl64_just_below_one: "fl64 (1 - 1 / 2 ^ 70) = 1"
proof -
  let ?x = "1 - 1 / 2 ^ 70 :: real"
  have pos: "0 < ?x" by simp
  have e: "\<lfloor>log 2 \<bar>?x\<bar>\<rfloor> = - 1"
  proof -
    have "(2::real) powr real_of_int (- 1) \<le> ?x \<and> ?x < 2 powr real_of_int (- 1 + 1)"
      by (simp add: powr_minus)
    with floor_log_eq_powr_iff[of ?x 2 "- 1"] pos have "\<lfloor>log 2 ?x\<rfloor> = - 1" by simp
    moreover have "\<bar>?x\<bar> = ?x" using pos by simp
    ultimately show ?thesis by (simp only:)
  qed
  have u: "(2::real) powr (of_int (- 1) - 52) = 1 / 2 ^ 53"
  proof -
    have "of_int (- 1) - 52 = - real 53" by simp
    then have "(2::real) powr (of_int (- 1) - 52) = 2 powr (- real 53)" by (simp only:)
    also have "\<dots> = inverse (2 powr real 53)" by (rule powr_minus)
    also have "(2::real) powr real 53 = 2 ^ 53" by (rule powr_realpow) simp
    finally show ?thesis by (simp only: inverse_eq_divide)
  qed
  have q: "?x / (1 / 2 ^ 53) = 2 ^ 53 - 1 / 2 ^ 17" by simp
  have f: "\<lfloor>2 ^ 53 - 1 / 2 ^ 17 :: real\<rfloor> = 2 ^ 53 - 1"
    by (rule floor_unique) simp_all
  have r: "round_half_even (2 ^ 53 - 1 / 2 ^ 17) = 2 ^ 53"
    unfolding round_half_even_def f Let_def by simp
  have nz: "?x \<noteq> 0" using pos by simp
  have "fl64 ?x = of_int (round_half_even (?x / (1 / 2 ^ 53))) * (1 / 2 ^ 53)"
    unfolding fl64_def Let_def e u using nz by (simp only: if_False)
  also have "\<dots> = 1" unfolding q r by simp
  finally show ?thesis .
qed

lemma py_fmod_tiny_negative: "py_fmod (- (1 / 2 ^ 70)) 1 = 1"
proof -
  have "\<lceil>- (1 / 2 ^ 70) :: real\<rceil> = 0" by (rule ceiling_unique) simp_all
  then have c: "c_fmod (- (1 / 2 ^ 70)) 1 = - (1 / 2 ^ 70)"
    by (simp add: c_fmod_def py_int_def)
  have s: "- (1 / 2 ^ 70) + 1 = (1 - 1 / 2 ^ 70 :: real)" by simp
  have g: "(- (1 / 2 ^ 70) \<noteq> (0::real) \<and> ((1::real) < 0) \<noteq> (- (1 / 2 ^ 70) < (0::real))) = True"
    by simp
  show ?thesis
    unfolding py_fmod_def c Let_def g s if_True by (rule fl64_just_below_one)
qed

text \<open>
  C4. The claim: after the modulo-wrap step \<open>0 \<le> tau < sps\<close>, and every recorded
  offset lies in \<open>[0, sps)\<close>. The code's \<open>tau %= sps\<close> is a float modulo, and it
  returns \<open>sps\<close> itself when \<open>tau\<close> is negative and tiny. With \<open>sps = 1\<close>, gain 1,
  the Mueller-Muller metric and the buffer \<open>[2^-70, 1]\<close> the first pass has the error
  \<open>- 2^-70\<close>, so \<open>tau = - 2^-70\<close>, and the modulo gives 1.0: \<open>main\<close> returns the
  offset trace \<open>[1]\<close>, and 1 is not below \<open>sps\<close>. With one more sample to process the
  next pass reads at index \<open>2 * 1 + int(1.0 * 1) = 3\<close>, one symbol too far, and raises
  IndexError. (Every other float operation of these two runs is exact.)
\<close>

theorem tau_modulo_rounds_up_to_sps:
  "main \<lparr>self_upsample = 1, self_interpolated_pulse = [complex_of_real (1 / 2 ^ 70), 1],
         self_offset = [], self_error = [], self_symbols_pred = [], self_out_signal = []\<rparr>
        2 1 ''mueller'' 0 1 (1 / 100) (1 / 10000) 4 0 False
     = Some (Inr (\<lparr>self_upsample = 1,
                    self_interpolated_pulse = [complex_of_real (1 / 2 ^ 70), 1],
                    self_offset = [1], self_error = [- (1 / 2 ^ 70)],
                    self_symbols_pred = [0, 1],
                    self_out_signal = [complex_of_real (1 / 2 ^ 70), 1]\<rparr>,
                  [1], [- (1 / 2 ^ 70)], [0, 1], [complex_of_real (1 / 2 ^ 70), 1]))
   \<and> main \<lparr>self_upsample = 1, self_interpolated_pulse = [complex_of_real (1 / 2 ^ 70), 1, 1],
         self_offset = [], self_error = [], self_symbols_pred = [], self_out_signal = []\<rparr>
        3 1 ''mueller'' 0 1 (1 / 100) (1 / 10000) 4 0 False
     = Some (Inl IndexError)"
proof -
  note m = py_fmod_tiny_negative[simplified]
  show ?thesis
    by (simp add: main_def main_loop.simps loop_body_def offset_cur_def error_eq_branch_def
          np_index_def py_int_def bindE_def list_last_def mueller_muller_def Let_def m)
qed

text \<open>
  C10. When \<open>main\<close> returns normally on a run with \<open>num_samples > sps > 0\<close>, the error
  and offset traces have \<open>N\<close> entries, where \<open>N\<close> is the number of positive multiples
  of \<open>sps\<close> below \<open>num_samples\<close> (the values of \<open>i_cur\<close> at which the body runs), the
  symbol and signal traces have \<open>N + 1\<close> entries, and the first recorded symbol is the
  caller's \<open>symbol_prev\<close>. In closed form \<open>N = (num_samples - 1) // sps\<close>.
\<close>

theorem main_trace_lengths:
  assumes "0 < sps" and "sps < num_samples"
    and "main self num_samples sps error_eq tau0 gain Kp Ki delta symbol_prev0 use_pi
            = Some (Inr (self', offs, errs, syms, outs))"
  shows "length errs = card {m. 0 < m \<and> m < num_samples \<and> sps dvd m}
       \<and> length offs = card {m. 0 < m \<and> m < num_samples \<and> sps dvd m}
       \<and> length syms = card {m. 0 < m \<and> m < num_samples \<and> sps dvd m} + 1
       \<and> length outs = card {m. 0 < m \<and> m < num_samples \<and> sps dvd m} + 1
       \<and> syms ! 0 = symbol_prev0
       \<and> card {m. 0 < m \<and> m < num_samples \<and> sps dvd m} = nat ((num_samples - 1) div sps)"
proof -
  let ?st0 = "\<lambda>first. \<lparr>i_cur = sps, tau = tau0, v = 0, symbol_prev = symbol_prev0,
              error = [], offset = [], symbols_pred = [symbol_prev0],
              out_signal = [first]\<rparr>"
  from main_Inr[OF assms(3)] obtain first fin where
    l: "main_loop self num_samples sps error_eq gain Kp Ki delta use_pi (?st0 first)
          = Some (Inr fin)"
    and e: "offs = offset fin" "errs = error fin" "syms = symbols_pred fin"
           "outs = out_signal fin"
    by blast
  have k: "known_metric error_eq"
  proof (rule ccontr)
    assume nk: "\<not> known_metric error_eq"
    show False
    proof (cases "loop_body self sps error_eq gain Kp Ki delta use_pi (?st0 first)")
      case (Inl err)
      with l assms(2) show False by (subst (asm) main_loop.simps) simp
    next
      case (Inr st')
      with loop_body_unknown_metric[OF nk, of "?st0 first"] show False by simp
    qed
  qed
  note t = main_loop_traces[OF assms(1) l]
  have v: "visited sps num_samples sps = {m. 0 < m \<and> m < num_samples \<and> sps dvd m}"
    by (rule visited_from_sps[OF assms(1)])
  from t have "take 1 (symbols_pred fin) = [symbol_prev0]" by simp
  then have h: "symbols_pred fin ! 0 = symbol_prev0"
    by (metis nth_take nth_Cons_0 zero_less_one)
  from t k v e h card_positive_multiples[OF assms(1), of num_samples] show ?thesis by simp
qed

theorem main_trace_lengths_witness:
  "(0::int) < 1 \<and> (1::int) < 3
   \<and> main \<lparr>self_upsample = 1, self_interpolated_pulse = [1, - 1, 1], self_offset = [],
         self_error = [], self_symbols_pred = [], self_out_signal = []\<rparr>
        3 1 ''mueller'' 0 (1 / 2) (1 / 100) (1 / 10000) 4 0 False
     = Some (Inr (\<lparr>self_upsample = 1, self_interpolated_pulse = [1, - 1, 1],
                    self_offset = [1 / 2, 1 / 2], self_error = [1, 0],
                    self_symbols_pred = [0, - 1, 1], self_out_signal = [1, - 1, 1]\<rparr>,
                  [1 / 2, 1 / 2], [1, 0], [0, - 1, 1], [1, - 1, 1]))
   \<and> length [1, 0 :: real] = card {m::int. 0 < m \<and> m < 3 \<and> 1 dvd m}
   \<and> length [1 / 2, 1 / 2 :: real] = card {m::int. 0 < m \<and> m < 3 \<and> 1 dvd m}
   \<and> length [0, - 1, 1 :: real] = card {m::int. 0 < m \<and> m < 3 \<and> 1 dvd m} + 1
   \<and> length [1, - 1, 1 :: complex] = card {m::int. 0 < m \<and> m < 3 \<and> 1 dvd m} + 1
   \<and> [0, - 1, 1 :: real] ! 0 = 0
   \<and> card {m::int. 0 < m \<and> m < 3 \<and> 1 dvd m} = nat ((3 - 1) div 1)
   \<and> nat ((3 - 1) div 1) = 2"
proof -
  have h1: "(0::int) < 1" and h2: "(1::int) < 3" by simp_all
  from main_trace_lengths[OF h1 h2 main_example_run] h1 h2 main_example_run
  show ?thesis by simp
qed

section \<open>Properties of the pulse shaper\<close>

subsection \<open>The raised-cosine kernel\<close>

text \<open>The raised-cosine impulse response is an even function of time.\<close>

lemma rc_tap_even: "rc_tap alpha Ts (- t) = rc_tap alpha Ts t"
proof (cases "t = 0")
  case True
  then show ?thesis by simp
next
  case False
  have s: "sin (pi * (- t) / Ts) / (pi * (- t) / Ts) = sin (pi * t / Ts) / (pi * t / Ts)"
    by simp
  have c: "cos (pi * alpha * (- t) / Ts) = cos (pi * alpha * t / Ts)"
    by simp
  have q: "(2 * alpha * (- t)) / Ts * ((2 * alpha * (- t)) / Ts)
            = (2 * alpha * t) / Ts * ((2 * alpha * t) / Ts)"
    by simp
  have p: "(- t = Ts / (2 * alpha) \<or> - t = - Ts / (2 * alpha))
             \<longleftrightarrow> (t = Ts / (2 * alpha) \<or> t = - Ts / (2 * alpha))"
    by auto
  show ?thesis
    unfolding rc_tap_def s c q using False p by auto
qed

text \<open>The taps that \<open>createrc\<close> stores: tap \<open>i\<close> is the impulse response at
  \<open>i + 1 - (rc_taps + 1) / 2\<close>.\<close>

lemma createrc_kernel:
  assumes "createrc self = Inr (self', taps)"
  shows "0 \<le> self_rc_taps self + 1"
    and "taps = map (\<lambda>i. rc_tap (self_rolloff self) (of_int (self_sps self))
                          (real (Suc i) - of_int (self_rc_taps self + 1) / 2))
                     [0 ..< nat (self_rc_taps self)]"
    and "self_raised_cosine self' = taps"
proof -
  from assms obtain ti h where r: "rcosfilter (self_rc_taps self + 1) (self_rolloff self)
        (of_int (self_sps self)) 1 = Inr (ti, h)" and k: "taps = py_slice_from h 1"
      and k': "self_raised_cosine self' = taps"
    by (auto simp: createrc_def bindE_Inr_iff Let_def)
  from r show n: "0 \<le> self_rc_taps self + 1"
    by (auto simp: rcosfilter_def split: if_splits)
  from r n have h: "h = map (\<lambda>x. rc_tap (self_rolloff self) (of_int (self_sps self))
                          (real x - of_int (self_rc_taps self + 1) / 2))
                     [0 ..< nat (self_rc_taps self + 1)]"
    by (auto simp: rcosfilter_def Let_def split: if_splits)
  have "py_slice_from h 1 = drop 1 h"
    by (cases h) (simp_all add: py_slice_from_def slice_bound_def)
  also have "\<dots> = map (\<lambda>i. rc_tap (self_rolloff self) (of_int (self_sps self))
                          (real (Suc i) - of_int (self_rc_taps self + 1) / 2))
                     [0 ..< nat (self_rc_taps self)]"
  proof (rule nth_equalityI)
    show "length (drop 1 h) = length (map (\<lambda>i. rc_tap (self_rolloff self) (of_int (self_sps self))
                          (real (Suc i) - of_int (self_rc_taps self + 1) / 2))
                     [0 ..< nat (self_rc_taps self)])"
      using h n by simp
  next
    fix i assume "i < length (drop 1 h)"
    then have i: "i < nat (self_rc_taps self)" using h n by simp
    then have "Suc i < nat (self_rc_taps self + 1)" using n by simp
    then show "drop 1 h ! i = map (\<lambda>i. rc_tap (self_rolloff self) (of_int (self_sps self))
                          (real (Suc i) - of_int (self_rc_taps self + 1) / 2))
                     [0 ..< nat (self_rc_taps self)] ! i"
      using i h by simp
  qed
  finally show "taps = map (\<lambda>i. rc_tap (self_rolloff self) (of_int (self_sps self))
                          (real (Suc i) - of_int (self_rc_taps self + 1) / 2))
                     [0 ..< nat (self_rc_taps self)]" using k by simp
  from k' show "self_raised_cosine self' = taps" .
qed

lemma arange_len_pos:
  assumes "0 < step" "start < stop"
  shows "0 < arange_len start stop step"
proof -
  from assms have "step \<le> stop - start + step - 1" by simp
  with assms(1) have "0 < (stop - start + step - 1) div step"
    by (simp only: pos_imp_zdiv_pos_iff)
  with assms(1) show ?thesis by (simp add: arange_len_def)
qed

text \<open>The stored kernel has \<open>rc_taps\<close> taps, as \<open>pulseshaping\<close> expects.\<close>

lemma createrc_kernel_length:
  assumes "createrc self = Inr (self', taps)"
  shows "length (self_raised_cosine self') = nat (self_rc_taps self')"
proof -
  from assms have "self_rc_taps self' = self_rc_taps self"
    by (auto simp: createrc_def bindE_Inr_iff Let_def)
  with createrc_kernel(2,3)[OF assms] show ?thesis by simp
qed

text \<open>\<open>createrc\<close> succeeds for every positive \<open>sps\<close> and tap count.\<close>

lemma createrc_succeeds:
  assumes "0 < self_sps self" "1 \<le> self_rc_taps self"
  shows "\<exists>self' taps. createrc self = Inr (self', taps)"
proof -
  obtain ti h where r: "rcosfilter (self_rc_taps self + 1) (self_rolloff self)
        (of_int (self_sps self)) 1 = Inr (ti, h)"
    using assms(2) by (simp add: rcosfilter_def Let_def)
  obtain below where b: "np_arange (self_rc_taps self div 2 - self_sps self) (- 1) (- self_sps self)
      = Inr below" using assms(1) by (simp add: np_arange_def)
  have "self_rc_taps self div 2 < self_rc_taps self" using assms(2) by simp
  from arange_len_pos[OF assms(1) this]
  obtain above where a: "np_arange (self_rc_taps self div 2) (self_rc_taps self) (self_sps self)
      = Inr above" and ne: "above \<noteq> []" using assms(1) by (auto simp: np_arange_def)
  define zs where "zs = rev below @ above"
  from ne have "0 < int (length zs)" by (cases above) (simp_all add: zs_def)
  then have "int (length zs) div 2 < int (length zs)" and "0 \<le> int (length zs) div 2"
    by (simp_all add: int_div_less_self)
  then obtain zc where d: "np_delete zs (int (length zs) div 2) = Inr zc"
    by (simp add: np_delete_def Let_def)
  from r b a d show ?thesis by (simp add: createrc_def bindE_def Let_def zs_def)
qed

text \<open>\<open>createrc\<close> for three taps, \<open>sps = 8\<close> and rolloff 0.3.\<close>

lemma createrc_example: "createrc \<lparr>self_rc_taps = 3, self_rolloff = 3 / 10, self_sps = 8,
                       self_raised_cosine = [], self_zero_crossings = [],
                       self_int_delay = None, self_frac_delay = None, self_sinc_taps = None,
                       self_snr = None, self_pulse_shaped = [], self_pulse_shaped_delayed = [],
                       self_pulse_shaped_delayed_noise = Float64 []\<rparr>
   = Inr (\<lparr>self_rc_taps = 3, self_rolloff = 3 / 10, self_sps = 8,
                       self_raised_cosine = [rc_tap (3 / 10) 8 (- 1), 1, rc_tap (3 / 10) 8 1], self_zero_crossings = [],
                       self_int_delay = None, self_frac_delay = None, self_sinc_taps = None,
                       self_snr = None, self_pulse_shaped = [], self_pulse_shaped_delayed = [],
                       self_pulse_shaped_delayed_noise = Float64 []\<rparr>, [rc_tap (3 / 10) 8 (- 1), 1, rc_tap (3 / 10) 8 1])"
proof -
  have u: "[0 ..< 4] = [0, 1, 2, 3::nat]" by (simp add: upt_rec)
  have z: "rc_tap (3 / 10) 8 0 = 1" by (simp add: rc_tap_def)
  show ?thesis
  by (simp add: createrc_def rcosfilter_def bindE_def np_arange_def u z
     arange_len_def np_delete_def py_slice_from_def slice_bound_def Let_def)
qed

text \<open>
  C5. For an odd tap count \<open>N\<close> the kernel that \<open>createrc\<close> builds has \<open>N\<close> taps and
  is symmetric: tap \<open>i\<close> equals tap \<open>N - 1 - i\<close>. (\<open>createrc\<close> returns a kernel exactly
  for a positive \<open>sps\<close>, see \<open>createrc_succeeds\<close>; for \<open>sps \<le> 0\<close> it raises. The taps
  are real numbers here.)
\<close>

theorem raised_cosine_symmetric:
  assumes "createrc self = Inr (self', taps)"
    and "odd (self_rc_taps self)"
    and "i < nat (self_rc_taps self)"
  shows "length taps = nat (self_rc_taps self)
       \<and> taps ! i = taps ! (nat (self_rc_taps self) - 1 - i)"
proof -
  let ?N = "nat (self_rc_taps self)"
  let ?f = "\<lambda>i. rc_tap (self_rolloff self) (of_int (self_sps self))
                          (real (Suc i) - of_int (self_rc_taps self + 1) / 2)"
  note k = createrc_kernel(2)[OF assms(1)]
  have l: "length taps = ?N" by (simp add: k)
  have j: "?N - 1 - i < ?N" using assms(3) by simp
  have N: "of_int (self_rc_taps self) = real ?N" using assms(3) by simp
  have "real (Suc (?N - 1 - i)) - of_int (self_rc_taps self + 1) / 2
          = - (real (Suc i) - of_int (self_rc_taps self + 1) / 2)"
    using assms(3) N by (simp add: of_nat_diff field_simps)
  then have "?f (?N - 1 - i) = ?f i" by (simp only: rc_tap_even)
  moreover have "taps ! i = ?f i" using assms(3) by (simp add: k)
  moreover have "taps ! (?N - 1 - i) = ?f (?N - 1 - i)" using j by (simp add: k del: of_nat_Suc)
  ultimately show ?thesis using l by simp
qed

theorem raised_cosine_symmetric_witness:
  "createrc \<lparr>self_rc_taps = 3, self_rolloff = 3 / 10, self_sps = 8,
             self_raised_cosine = [], self_zero_crossings = [],
             self_int_delay = None, self_frac_delay = None, self_sinc_taps = None,
             self_snr = None, self_pulse_shaped = [], self_pulse_shaped_delayed = [],
             self_pulse_shaped_delayed_noise = Float64 []\<rparr>
     = Inr (\<lparr>self_rc_taps = 3, self_rolloff = 3 / 10, self_sps = 8,
             self_raised_cosine = [rc_tap (3 / 10) 8 (- 1), 1, rc_tap (3 / 10) 8 1],
             self_zero_crossings = [],
             self_int_delay = None, self_frac_delay = None, self_sinc_taps = None,
             self_snr = None, self_pulse_shaped = [], self_pulse_shaped_delayed = [],
             self_pulse_shaped_delayed_noise = Float64 []\<rparr>,
            [rc_tap (3 / 10) 8 (- 1), 1, rc_tap (3 / 10) 8 1])
   \<and> odd (3::int) \<and> (0::nat) < nat 3
   \<and> length [rc_tap (3 / 10) 8 (- 1), 1, rc_tap (3 / 10) 8 1] = nat 3
   \<and> [rc_tap (3 / 10) 8 (- 1), 1, rc_tap (3 / 10) 8 1] ! 0
       = [rc_tap (3 / 10) 8 (- 1), 1, rc_tap (3 / 10) 8 1] ! (nat 3 - 1 - 0)"
proof -
  have o: "odd (3::int)" and i: "(0::nat) < nat 3" by simp_all
  from raised_cosine_symmetric[OF createrc_example, of 0] createrc_example o i show ?thesis by simp
qed

subsection \<open>Pulse shaping\<close>

text \<open>Discarding the edges of an array removes \<open>taps - 1\<close> samples when there are at
  least two taps.\<close>

lemma trim_edges_length:
  assumes "2 \<le> taps"
  shows "length (trim_edges taps xs) = length xs - nat (taps - 1)"
proof -
  define a where "a = (taps - 1) div 2"
  define b where "b = (- (taps - 1)) div 2"
  have e: "a - b = taps - 1" unfolding a_def b_def by presburger
  have a0: "0 \<le> a" unfolding a_def using assms by simp
  have b0: "b < 0" unfolding b_def using assms by simp
  have lo: "slice_bound (length xs) a = min (nat a) (length xs)"
    using a0 by (simp add: slice_bound_def)
  have hi: "slice_bound (length xs) b = nat (b + int (length xs))"
    using b0 by (simp add: slice_bound_def max_def)
  have "length (trim_edges taps xs)
          = min (nat (b + int (length xs)) - min (nat a) (length xs))
                (length xs - min (nat a) (length xs))"
    unfolding trim_edges_def py_slice_def Let_def a_def[symmetric] b_def[symmetric] lo hi
    by (simp add: min.commute)
  also have "\<dots> = length xs - nat (taps - 1)"
    using e a0 b0 by (simp add: min_def) linarith
  finally show ?thesis .
qed

text \<open>Where \<open>pulseshaping\<close> returns, the pulse train is not empty, and the result has
  the lengths of the docstring as long as there are at least two taps.\<close>

lemma pulseshaping_length:
  assumes "pulseshaping self pulses keep_edges = Inr (self', shaped)"
    and "length (self_raised_cosine self) = nat (self_rc_taps self)"
  shows "pulses \<noteq> []" and "1 \<le> self_rc_taps self"
    and "keep_edges \<Longrightarrow> length shaped = length pulses + nat (self_rc_taps self) - 1"
    and "\<not> keep_edges \<Longrightarrow> 2 \<le> self_rc_taps self \<Longrightarrow> length shaped = length pulses"
proof -
  from assms(1) obtain full where f: "np_convolve pulses (self_raised_cosine self) = Inr full"
    and s: "shaped = (if \<not> keep_edges then trim_edges (self_rc_taps self) full else full)"
    by (auto simp: pulseshaping_def bindE_Inr_iff Let_def)
  from f show p: "pulses \<noteq> []" by (auto simp: np_convolve_def split: if_splits)
  from f have "self_raised_cosine self \<noteq> []" by (auto simp: np_convolve_def split: if_splits)
  with assms(2) show "1 \<le> self_rc_taps self" by (cases "1 \<le> self_rc_taps self") auto
  from f have l: "length full = length pulses + nat (self_rc_taps self) - 1"
    using assms(2) by (auto simp: np_convolve_def split: if_splits)
  { assume "keep_edges" with s l show "length shaped = length pulses + nat (self_rc_taps self) - 1"
      by simp }
  { assume k: "\<not> keep_edges" and t: "2 \<le> self_rc_taps self"
    from k s have "length shaped = length full - nat (self_rc_taps self - 1)"
      using trim_edges_length[OF t] by simp
    also have "\<dots> = length pulses" using l t p by (simp add: nat_diff_distrib)
    finally show "length shaped = length pulses" . }
qed

text \<open>
  C6. The claim: for every odd tap count, \<open>pulseshaping\<close> with \<open>keep_edges = False\<close>
  returns \<open>len(input)\<close> samples. With the odd tap count 1 it returns none: the slice
  is \<open>[0 : -0]\<close>, that is \<open>[0:0]\<close>. The object below is the one the constructor builds
  for \<open>rc_taps = 1\<close>; with \<open>keep_edges = True\<close> the same call returns all four samples.
\<close>

theorem pulseshaping_single_tap_returns_nothing:
  "PulseShaper_init 1 (3 / 10) 8 None None None None
     = Inr \<lparr>self_rc_taps = 1, self_rolloff = 3 / 10, self_sps = 8,
            self_raised_cosine = [1], self_zero_crossings = [],
            self_int_delay = None, self_frac_delay = None, self_sinc_taps = None,
            self_snr = None, self_pulse_shaped = [], self_pulse_shaped_delayed = [],
            self_pulse_shaped_delayed_noise = Float64 []\<rparr>
   \<and> pulseshaping
         \<lparr>self_rc_taps = 1, self_rolloff = 3 / 10, self_sps = 8,
          self_raised_cosine = [1], self_zero_crossings = [],
          self_int_delay = None, self_frac_delay = None, self_sinc_taps = None,
          self_snr = None, self_pulse_shaped = [], self_pulse_shaped_delayed = [],
          self_pulse_shaped_delayed_noise = Float64 []\<rparr>
         [1, 0, - 1, 0] False
     = Inr (\<lparr>self_rc_taps = 1, self_rolloff = 3 / 10, self_sps = 8,
             self_raised_cosine = [1], self_zero_crossings = [],
             self_int_delay = None, self_frac_delay = None, self_sinc_taps = None,
             self_snr = None, self_pulse_shaped = [], self_pulse_shaped_delayed = [],
             self_pulse_shaped_delayed_noise = Float64 []\<rparr>, [])
   \<and> pulseshaping
         \<lparr>self_rc_taps = 1, self_rolloff = 3 / 10, self_sps = 8,
          self_raised_cosine = [1], self_zero_crossings = [],
          self_int_delay = None, self_frac_delay = None, self_sinc_taps = None,
          self_snr = None, self_pulse_shaped = [], self_pulse_shaped_delayed = [],
          self_pulse_shaped_delayed_noise = Float64 []\<rparr>
         [1, 0, - 1, 0] True
     = Inr (\<lparr>self_rc_taps = 1, self_rolloff = 3 / 10, self_sps = 8,
             self_raised_cosine = [1], self_zero_crossings = [],
             self_int_delay = None, self_frac_delay = None, self_sinc_taps = None,
             self_snr = None, self_pulse_shaped = [1, 0, - 1, 0], self_pulse_shaped_delayed = [],
             self_pulse_shaped_delayed_noise = Float64 []\<rparr>, [1, 0, - 1, 0])"
proof -
  have u: "[0 ..< 2] = [0, 1::nat]" "[0 ..< 4] = [0, 1, 2, 3::nat]" by (simp_all add: upt_rec)
  have z: "rc_tap (3 / 10) 8 0 = 1" by (simp add: rc_tap_def)
  have a: "PulseShaper_init 1 (3 / 10) 8 None None None None
     = Inr \<lparr>self_rc_taps = 1, self_rolloff = 3 / 10, self_sps = 8,
            self_raised_cosine = [1], self_zero_crossings = [],
            self_int_delay = None, self_frac_delay = None, self_sinc_taps = None,
            self_snr = None, self_pulse_shaped = [], self_pulse_shaped_delayed = [],
            self_pulse_shaped_delayed_noise = Float64 []\<rparr>"
    by (simp add: PulseShaper_init_def createrc_def rcosfilter_def bindE_def np_arange_def u z
          arange_len_def np_delete_def py_slice_from_def slice_bound_def Let_def)
  have c: "np_convolve [1, 0, - 1, 0] [1] = Inr [1, 0, - 1, 0]"
    by (simp add: np_convolve_def conv_at_def u)
  from a c show ?thesis
    by (simp add: pulseshaping_def trim_edges_def py_slice_def slice_bound_def bindE_def Let_def)
qed

subsection \<open>Delay\<close>

lemma int_delay_shape:
  fixes xs :: "real list"
  assumes "0 < d" "d \<le> int (length xs)"
  shows "py_slice xs 0 (- d) = take (length xs - nat d) xs"
proof -
  have "slice_bound (length xs) 0 = 0" by (simp add: slice_bound_def)
  moreover have "slice_bound (length xs) (- d) = length xs - nat d"
    using assms by (simp add: slice_bound_def max_def) linarith
  ultimately show ?thesis by (simp add: py_slice_def)
qed

text \<open>Within the signal the integer-delay stage does what its comment says: for
  \<open>0 \<le> d \<le> len(signal)\<close> the result has the length of the signal, \<open>d\<close> zeros first
  and then the input shifted by \<open>d\<close>. Without a fractional delay (\<open>None\<close> or 0)
  \<open>fractionaldelay\<close> returns the integer-delayed buffer unchanged.\<close>

lemma integer_delay_shift:
  assumes "self_int_delay self = Some d" and "0 \<le> d"
    and "d \<le> int (length (self_pulse_shaped self))"
  shows "integer_delay self
           = Inr (replicate (nat d) 0
                  @ take (length (self_pulse_shaped self) - nat d) (self_pulse_shaped self))"
    and "length (replicate (nat d) (0::real)
                 @ take (length (self_pulse_shaped self) - nat d) (self_pulse_shaped self))
           = length (self_pulse_shaped self)"
    and "\<forall>i < nat d.
           (replicate (nat d) 0
            @ take (length (self_pulse_shaped self) - nat d) (self_pulse_shaped self)) ! i = 0"
    and "\<forall>i. nat d \<le> i \<and> i < length (self_pulse_shaped self) \<longrightarrow>
           (replicate (nat d) 0
            @ take (length (self_pulse_shaped self) - nat d) (self_pulse_shaped self)) ! i
             = self_pulse_shaped self ! (i - nat d)"
proof -
  let ?xs = "self_pulse_shaped self"
  let ?D = "replicate (nat d) 0 @ take (length ?xs - nat d) ?xs"
  show "integer_delay self = Inr ?D"
  proof (cases "d = 0")
    case True
    with assms(1) show ?thesis by (simp add: integer_delay_def)
  next
    case False
    with assms(2) have "0 < d" by simp
    from int_delay_shape[OF this assms(3)] False assms(1,2) show ?thesis
      by (simp add: integer_delay_def np_zeros_def bindE_def)
  qed
  show "length ?D = length ?xs" using assms(2,3) by simp
  show "\<forall>i < nat d. ?D ! i = 0" by (simp add: nth_append)
  show "\<forall>i. nat d \<le> i \<and> i < length ?xs \<longrightarrow> ?D ! i = ?xs ! (i - nat d)"
    by (auto simp: nth_append)
qed

lemma fractionaldelay_without_fraction:
  assumes "self_frac_delay self = None \<or> self_frac_delay self = Some 0"
    and "integer_delay self = Inr delayed"
  shows "fractionaldelay self keep_edges
           = Inr (self\<lparr>self_pulse_shaped_delayed := delayed\<rparr>, delayed)"
  using assms by (auto simp: fractionaldelay_def bindE_def Let_def)

text \<open>
  C7. The claim: for every integer delay \<open>d\<close> the integer-delay stage gives a buffer
  of the same length, and without a fractional delay \<open>fractionaldelay\<close> returns it
  unchanged. With \<open>d = 3\<close> on a signal of 2 samples the code returns 3 zeros:
  \<open>pulse_shaped[:-3]\<close> is empty, \<open>np.zeros(3)\<close> is not clipped to the signal, and the
  buffer is longer than the signal, against the docstring "shape (pulse_shaped,)".
\<close>

theorem integer_delay_beyond_signal_lengthens:
  "integer_delay
     \<lparr>self_rc_taps = 3, self_rolloff = 3 / 10, self_sps = 8,
      self_raised_cosine = [], self_zero_crossings = [],
      self_int_delay = Some 3, self_frac_delay = None, self_sinc_taps = None,
      self_snr = None, self_pulse_shaped = [1, 2], self_pulse_shaped_delayed = [],
      self_pulse_shaped_delayed_noise = Float64 []\<rparr> = Inr [0, 0, 0]
   \<and> fractionaldelay
     \<lparr>self_rc_taps = 3, self_rolloff = 3 / 10, self_sps = 8,
      self_raised_cosine = [], self_zero_crossings = [],
      self_int_delay = Some 3, self_frac_delay = None, self_sinc_taps = None,
      self_snr = None, self_pulse_shaped = [1, 2], self_pulse_shaped_delayed = [],
      self_pulse_shaped_delayed_noise = Float64 []\<rparr> False
     = Inr (\<lparr>self_rc_taps = 3, self_rolloff = 3 / 10, self_sps = 8,
             self_raised_cosine = [], self_zero_crossings = [],
             self_int_delay = Some 3, self_frac_delay = None, self_sinc_taps = None,
             self_snr = None, self_pulse_shaped = [1, 2],
             self_pulse_shaped_delayed = [0, 0, 0],
             self_pulse_shaped_delayed_noise = Float64 []\<rparr>, [0, 0, 0])"
  by (simp add: fractionaldelay_def integer_delay_def np_zeros_def bindE_def py_slice_def
        slice_bound_def numeral_3_eq_3 Let_def)

subsection \<open>The fractional-delay kernel\<close>

text \<open>An alternating sum of non-negative, non-increasing terms is not negative.\<close>

lemma alternating_partial_sums:
  fixes c :: "nat \<Rightarrow> real"
  assumes mono: "\<And>j. Suc j < h \<Longrightarrow> c (Suc j) \<le> c j"
    and "n \<le> h"
  shows "(even n \<longrightarrow> 0 \<le> (\<Sum>j<n. (- 1) ^ j * c j))
       \<and> (odd n \<longrightarrow> c (n - 1) \<le> (\<Sum>j<n. (- 1) ^ j * c j))"
  using assms(2)
proof (induction n)
  case 0
  show ?case by simp
next
  case (Suc n)
  then have ih: "(even n \<longrightarrow> 0 \<le> (\<Sum>j<n. (- 1) ^ j * c j))
       \<and> (odd n \<longrightarrow> c (n - 1) \<le> (\<Sum>j<n. (- 1) ^ j * c j))" by simp
  show ?case
  proof (cases "even n")
    case True
    with ih show ?thesis by simp
  next
    case False
    then obtain k where k: "n = Suc k" by (cases n) auto
    with Suc.prems have "Suc k < h" by simp
    from mono[OF this] have "c n \<le> c (n - 1)" using k by simp
    with False ih show ?thesis by simp
  qed
qed

lemma alternating_sum_nonneg:
  fixes c :: "nat \<Rightarrow> real"
  assumes "\<And>j. j < h \<Longrightarrow> 0 \<le> c j"
    and "\<And>j. Suc j < h \<Longrightarrow> c (Suc j) \<le> c j"
  shows "0 \<le> (\<Sum>j<h. (- 1) ^ j * c j)"
proof (cases "even h")
  case True
  with alternating_partial_sums[of h c h, OF assms(2)] show ?thesis by simp
next
  case False
  then have "0 < h" by (cases h) auto
  then have "0 \<le> c (h - 1)" by (intro assms(1)) simp
  with False alternating_partial_sums[of h c h, OF assms(2)] show ?thesis by simp
qed

text \<open>A sum over \<open>2h + 1\<close> indices, taken from the centre outwards.\<close>

lemma sum_symmetric_split:
  fixes G :: "nat \<Rightarrow> real"
  shows "(\<Sum>k<2 * h + 1. G k) = G h + (\<Sum>j<h. G (h - Suc j) + G (h + Suc j))"
proof -
  have "(\<Sum>k<2 * h + 1. G k) = sum G {0 ..< h} + sum G {h ..< 2 * h + 1}"
    by (simp add: sum.atLeastLessThan_concat lessThan_atLeast0)
  also have "sum G {h ..< 2 * h + 1} = G h + sum G {Suc h ..< 2 * h + 1}"
    by (simp add: sum.atLeast_Suc_lessThan)
  also have "sum G {Suc h ..< 2 * h + 1} = (\<Sum>j<h. G (h + Suc j))"
  proof -
    have "sum G {0 + Suc h ..< h + Suc h} = (\<Sum>j\<in>{0 ..< h}. G (j + Suc h))"
      by (rule sum.shift_bounds_nat_ivl)
    then show ?thesis by (simp add: lessThan_atLeast0 add.commute mult_2)
  qed
  also have "sum G {0 ..< h} = (\<Sum>j<h. G (h - Suc j))"
    by (simp add: lessThan_atLeast0[symmetric] sum.nat_diff_reindex)
  finally show ?thesis by (simp add: sum.distrib)
qed

text \<open>The sinc at a distance \<open>d\<close> from an integer, for \<open>0 < d < 1\<close>.\<close>

lemma np_sinc_above:
  assumes "0 < d" "d < 1" "0 < m"
  shows "np_sinc (real m - d) = - ((- 1) ^ m * sin (pi * d)) / (pi * (real m - d))"
proof -
  have nz: "real m - d \<noteq> 0" using assms by (cases m) auto
  have "sin (pi * (real m - d)) = sin (pi * real m - pi * d)" by (simp add: algebra_simps)
  also have "\<dots> = - ((- 1) ^ m * sin (pi * d))" by (simp add: sin_diff)
  finally show ?thesis using nz by (simp add: np_sinc_def)
qed

lemma np_sinc_below:
  assumes "0 < d"
  shows "np_sinc (- real m - d) = ((- 1) ^ m * sin (pi * d)) / (pi * (real m + d))"
proof -
  have nz: "- real m - d \<noteq> 0" using assms by (smt (verit) of_nat_0_le_iff)
  have "pi * (- real m - d) = - (pi * real m + pi * d)" by (simp add: algebra_simps)
  then have "sin (pi * (- real m - d)) = - sin (pi * real m + pi * d)"
    by (simp only: sin_minus)
  also have "\<dots> = - ((- 1) ^ m * sin (pi * d))" by (simp add: sin_add)
  finally have "np_sinc (- real m - d) = - ((- 1) ^ m * sin (pi * d)) / (pi * (- real m - d))"
    using nz by (simp add: np_sinc_def)
  also have "\<dots> = ((- 1) ^ m * sin (pi * d)) / (pi * (real m + d))"
  proof -
    have "pi * (- real m - d) = - (pi * (real m + d))" by (simp add: algebra_simps)
    then show ?thesis by (simp only: divide_minus_left minus_divide_right[symmetric] minus_minus)
  qed
  finally show ?thesis .
qed

text \<open>The Hamming window seen from its centre: it is positive and falls off to both
  sides.\<close>

lemma hamming_cos_mirror:
  assumes "0 < h" "m \<le> h"
  shows "cos (2 * pi * real (h - m) / (2 * real h)) = - cos (pi * real m / real h)"
    and "cos (2 * pi * real (h + m) / (2 * real h)) = - cos (pi * real m / real h)"
proof -
  have h: "real h \<noteq> 0" using assms(1) by simp
  have "2 * pi * real (h - m) / (2 * real h) = pi - pi * real m / real h"
    using assms h by (simp add: of_nat_diff field_simps)
  then show "cos (2 * pi * real (h - m) / (2 * real h)) = - cos (pi * real m / real h)"
    by (simp only: cos_pi_minus)
  have "2 * pi * real (h + m) / (2 * real h) = pi * real m / real h + pi"
    using h by (simp add: field_simps)
  then show "cos (2 * pi * real (h + m) / (2 * real h)) = - cos (pi * real m / real h)"
    by (simp only: cos_periodic_pi)
qed

lemma hamming_window_antitone:
  assumes "0 < h" "Suc m \<le> h"
  shows "(54 / 100 + 46 / 100 * cos (pi * real (Suc m) / real h) :: real)
           \<le> 54 / 100 + 46 / 100 * cos (pi * real m / real h)"
proof -
  have h: "0 < real h" using assms(1) by simp
  have a: "0 \<le> pi * real m / real h" using h by simp
  have b: "pi * real m / real h \<le> pi * real (Suc m) / real h"
    using h by (simp add: divide_le_cancel)
  have "real (Suc m) / real h \<le> 1" using assms h by simp
  then have "pi * (real (Suc m) / real h) \<le> pi * 1"
    by (intro mult_left_mono) simp_all
  then have c: "pi * real (Suc m) / real h \<le> pi" by simp
  from cos_monotone_0_pi_le[OF a b c] show ?thesis by simp
qed

lemma hamming_window_pos:
  "0 < (54 / 100 + 46 / 100 * cos x :: real)"
  using cos_ge_minus_one[of x] by linarith

lemma windowed_sinc_sum_pos:
  assumes d: "0 < d" "d < 1" and h: "0 < h"
  shows "0 < (\<Sum>k<2 * h + 1. np_sinc (real k - real h - d)
                 * (54 / 100 - 46 / 100 * cos (2 * pi * real k / (2 * real h))))"
proof -
  let ?a = "\<lambda>m. (54 / 100 + 46 / 100 * cos (pi * real m / real h) :: real)"
  let ?G = "\<lambda>k. np_sinc (real k - real h - d)
                 * (54 / 100 - 46 / 100 * cos (2 * pi * real k / (2 * real h)))"
  let ?c = "\<lambda>j. ?a (Suc j) / ((real (Suc j) + d) * (real (Suc j) - d))"
  let ?s = "sin (pi * d)"
  have "0 < pi * d" using d by simp
  moreover have "pi * d < pi * 1" using d by (intro mult_strict_left_mono) simp_all
  ultimately have s: "0 < ?s" by (intro sin_gt_zero) simp_all
  have centre: "?G h = ?s / (pi * d)"
  proof -
    have "np_sinc (real h - real h - d) = ?s / (pi * d)"
      using np_sinc_below[OF d(1), of 0] by simp
    moreover have "cos (2 * pi * real h / (2 * real h)) = - 1" using h by simp
    ultimately show ?thesis by simp
  qed
  have pair: "?G (h - Suc j) + ?G (h + Suc j) = (2 * d * ?s / pi) * ((- 1) ^ j * ?c j)"
    if "j < h" for j
  proof -
    define m where "m = Suc j"
    from that have m: "m \<le> h" and m0: "0 < m" by (simp_all add: m_def)
    have p: "0 < real m - d" "0 < real m + d" using d m0 by (cases m; simp)+
    have lo: "real (h - m) - real h - d = - real m - d"
      using m by (simp add: of_nat_diff)
    have hi: "real (h + m) - real h - d = real m - d" by simp
    have w_lo: "54 / 100 - 46 / 100 * cos (2 * pi * real (h - m) / (2 * real h)) = ?a m"
      by (simp only: hamming_cos_mirror(1)[OF h m] mult_minus_right diff_minus_eq_add)
    have w_hi: "54 / 100 - 46 / 100 * cos (2 * pi * real (h + m) / (2 * real h)) = ?a m"
      by (simp only: hamming_cos_mirror(2)[OF h m] mult_minus_right diff_minus_eq_add)
    have g_lo: "?G (h - m) = ((- 1) ^ m * ?s) / (pi * (real m + d)) * ?a m"
      by (simp only: lo w_lo np_sinc_below[OF d(1)])
    have g_hi: "?G (h + m) = - ((- 1) ^ m * ?s) / (pi * (real m - d)) * ?a m"
      by (simp only: hi w_hi np_sinc_above[OF d m0])
    have alg: "X / (pi * u) * A + - X / (pi * w) * A
                 = (2 * d * ?s / pi) * (- Y * (A / (u * w)))"
      if "u \<noteq> 0" "w \<noteq> 0" "w - u = - (2 * d)" "X = Y * ?s" for X Y A u w :: real
    proof -
      have "X / (pi * u) * A + - X / (pi * w) * A = (X * A / pi) * (1 / u - 1 / w)"
        using that(1,2) by (simp add: field_simps)
      also have "1 / u - 1 / w = (w - u) / (u * w)"
        using that(1,2) by (simp add: field_simps)
      finally show ?thesis unfolding that(3,4) by simp
    qed
    have "?G (h - m) + ?G (h + m)
        = (2 * d * ?s / pi) * (- ((- 1) ^ m) * (?a m / ((real m + d) * (real m - d))))"
      unfolding g_lo g_hi using p by (intro alg) simp_all
    then show ?thesis unfolding m_def by simp
  qed
  have c_nonneg: "0 \<le> ?c j" for j
  proof -
    have "0 < real (Suc j) - d" "0 < real (Suc j) + d" using d by simp_all
    moreover have "0 < ?a (Suc j)" by (rule hamming_window_pos)
    ultimately show ?thesis by simp
  qed
  have c_anti: "?c (Suc j) \<le> ?c j" if "Suc j < h" for j
  proof (rule frac_le)
    show "0 \<le> ?a (Suc j)" using hamming_window_pos[of "pi * real (Suc j) / real h"] by simp
    show "?a (Suc (Suc j)) \<le> ?a (Suc j)"
      using that by (intro hamming_window_antitone[OF h]) simp
    show "0 < (real (Suc j) + d) * (real (Suc j) - d)" using d by simp
    show "(real (Suc j) + d) * (real (Suc j) - d)
            \<le> (real (Suc (Suc j)) + d) * (real (Suc (Suc j)) - d)"
      using d by (intro mult_mono) simp_all
  qed
  have "0 \<le> (\<Sum>j<h. (- 1) ^ j * ?c j)"
  proof (rule alternating_sum_nonneg)
    fix j show "0 \<le> ?c j" by (rule c_nonneg)
  next
    fix j assume "Suc j < h"
    then show "?c (Suc j) \<le> ?c j" by (rule c_anti)
  qed
  moreover have "0 \<le> 2 * d * ?s / pi" using d s by simp
  ultimately have tail: "0 \<le> (2 * d * ?s / pi) * (\<Sum>j<h. (- 1) ^ j * ?c j)"
    by (rule mult_nonneg_nonneg[rotated])
  have "(\<Sum>k<2 * h + 1. ?G k) = ?G h + (\<Sum>j<h. ?G (h - Suc j) + ?G (h + Suc j))"
    by (rule sum_symmetric_split)
  also have "(\<Sum>j<h. ?G (h - Suc j) + ?G (h + Suc j))
               = (\<Sum>j<h. (2 * d * ?s / pi) * ((- 1) ^ j * ?c j))"
  proof (rule sum.cong)
    fix j assume "j \<in> {..<h}"
    then have "j < h" by simp
    then show "?G (h - Suc j) + ?G (h + Suc j) = (2 * d * ?s / pi) * ((- 1) ^ j * ?c j)"
      by (rule pair)
  qed (rule refl)
  also have "\<dots> = (2 * d * ?s / pi) * (\<Sum>j<h. (- 1) ^ j * ?c j)"
    by (simp only: sum_distrib_left)
  finally have "(\<Sum>k<2 * h + 1. ?G k)
                  = ?s / (pi * d) + (2 * d * ?s / pi) * (\<Sum>j<h. (- 1) ^ j * ?c j)"
    by (simp only: centre)
  moreover have "0 < ?s / (pi * d)" using s d by simp
  ultimately show ?thesis using tail by linarith
qed

text \<open>For an odd tap count and a delay in \<open>(0, 1)\<close> the windowed sinc has a positive
  sum, so the division by the sum is a division by a non-zero number and the kernel
  sums to 1.\<close>

lemma sum_list_upt_conv_sum: "sum_list (map f [0 ..< n]) = (\<Sum>k<n. f k)"
  by (simp add: interv_sum_list_conv_sum_set_nat lessThan_atLeast0)

lemma sinc_delay_kernel_odd:
  assumes d: "0 < d" "d < 1"
  shows "\<exists>ks. sinc_delay_kernel (2 * int h + 1) d = Inr ks
              \<and> length ks = 2 * h + 1 \<and> sum_list ks = 1"
proof -
  let ?M = "2 * int h + 1"
  let ?w = "\<lambda>k. if h = 0 then 1
                else (54 / 100 - 46 / 100 * cos (2 * pi * real k / (2 * real h)) :: real)"
  let ?F = "\<lambda>k. np_sinc (real k - real h - d) * ?w k"
  let ?raw = "map ?F [0 ..< 2 * h + 1]"
  have lo: "(- (?M - 1)) div 2 = - int h" by simp
  have hi: "?M div 2 + 1 = int h + 1" by simp
  have len: "arange_len (- int h) (int h + 1) 1 = 2 * h + 1"
    by (simp add: arange_len_def nat_add_distrib nat_mult_distrib)
  have n: "np_arange ((- (?M - 1)) div 2) (?M div 2 + 1) 1
             = Inr (map (\<lambda>k. - int h + int k) [0 ..< 2 * h + 1])"
    unfolding lo hi by (simp add: np_arange_def len)
  have sn: "map (\<lambda>k. np_sinc (of_int k - d)) (map (\<lambda>k. - int h + int k) [0 ..< 2 * h + 1])
             = map (\<lambda>k. np_sinc (real k - real h - d)) [0 ..< 2 * h + 1]"
    by (simp add: algebra_simps)
  have hm: "np_hamming ?M = map ?w [0 ..< 2 * h + 1]"
  proof (cases "h = 0")
    case True
    then show ?thesis by (simp add: np_hamming_def)
  next
    case False
    then have "\<not> ?M < 1" "?M \<noteq> 1" by simp_all
    moreover have "nat ?M = 2 * h + 1" by (simp add: nat_add_distrib nat_mult_distrib)
    ultimately show ?thesis using False by (simp add: np_hamming_def)
  qed
  define raw where "raw = map ?F [0 ..< 2 * h + 1]"
  have mul: "np_multiply (map (\<lambda>k. np_sinc (real k - real h - d)) [0 ..< 2 * h + 1])
                (np_hamming ?M) = Inr raw"
    unfolding hm raw_def by (simp add: np_multiply_def map2_map_map)
  have S: "sum_list raw = (\<Sum>k<2 * h + 1. ?F k)"
    unfolding raw_def by (rule sum_list_upt_conv_sum)
  have pos: "0 < sum_list raw"
  proof (cases "h = 0")
    case True
    have "0 < pi * d" using d by simp
    moreover have "pi * d < pi * 1" using d by (intro mult_strict_left_mono) simp_all
    ultimately have "0 < sin (pi * d)" by (intro sin_gt_zero) simp_all
    then have "0 < sin (pi * d) / (pi * d)" using d by simp
    with True np_sinc_below[OF d(1), of 0] show ?thesis unfolding S by simp
  next
    case False
    then have "0 < h" by simp
    from windowed_sinc_sum_pos[OF d this] False show ?thesis unfolding S by simp
  qed
  have k: "sinc_delay_kernel ?M d = Inr (map (\<lambda>x. x / sum_list raw) raw)"
    unfolding sinc_delay_kernel_def n bindE_def sum.case sn mul using pos by simp
  have "sum_list (map (\<lambda>x. x / sum_list raw) raw) = sum_list raw / sum_list raw"
    by (simp add: divide_inverse sum_list_mult_const)
  also have "\<dots> = 1" using pos by simp
  finally have "sum_list (map (\<lambda>x. x / sum_list raw) raw) = 1" .
  moreover have "length (map (\<lambda>x. x / sum_list raw) raw) = 2 * h + 1"
    by (simp add: raw_def)
  ultimately show ?thesis using k by blast
qed

text \<open>Where the kernel overlaps a constant signal completely, the convolution is the
  constant times the sum of the kernel.\<close>

lemma conv_at_constant_full_overlap:
  assumes len: "length ks = 2 * h + 1" and lo: "2 * h \<le> n" and hi: "n < L"
  shows "conv_at (replicate L c) ks n = c * sum_list ks"
proof -
  let ?P = "\<lambda>m. m \<le> n \<and> n - m < length ks"
  have set_eq: "set (filter ?P [0 ..< L]) = {n - 2 * h .. n}"
    using len lo hi by auto
  have "conv_at (replicate L c) ks n
          = (\<Sum>m\<in>set (filter ?P [0 ..< L]). replicate L c ! m * ks ! (n - m))"
    unfolding conv_at_def length_replicate by (rule sum_list_distinct_conv_sum_set) simp
  also have "\<dots> = (\<Sum>m\<in>{n - 2 * h .. n}. c * ks ! (n - m))"
    unfolding set_eq using hi by (intro sum.cong) simp_all
  also have "\<dots> = (\<Sum>t\<in>{0 ..< 2 * h + 1}. c * ks ! t)"
    using lo by (intro sum.reindex_bij_witness[of _ "\<lambda>t. n - t" "\<lambda>m. n - m"]) auto
  also have "\<dots> = c * (\<Sum>t\<in>{0 ..< length ks}. ks ! t)"
    by (simp only: len sum_distrib_left)
  also have "(\<Sum>t\<in>{0 ..< length ks}. ks ! t) = sum_list ks"
    by (rule sum_list_sum_nth[symmetric])
  finally show ?thesis .
qed

lemma trim_edges_odd:
  assumes "0 < h" and "length xs = L + 2 * h"
  shows "trim_edges (2 * int h + 1) xs = take L (drop h xs)"
proof -
  have a: "(2 * int h + 1 - 1) div 2 = int h" by simp
  have b: "(- (2 * int h + 1 - 1)) div 2 = - int h" by simp
  have lo: "slice_bound (length xs) (int h) = h"
    using assms by (simp add: slice_bound_def)
  have hi: "slice_bound (length xs) (- int h) = L + h"
    using assms by (simp add: slice_bound_def max_def)
  show ?thesis
    unfolding trim_edges_def a b py_slice_def Let_def lo hi by simp
qed

text \<open>Three taps and a delay of half a sample, on the constant signal \<open>[1, 1, 1]\<close>.\<close>

lemma sinc_delay_kernel_example:
  "sinc_delay_kernel 3 (1 / 2) = Inr [- (2 / 79), 75 / 79, 6 / 79]"
proof -
  have u: "[0 ..< 3] = [0, 1, 2::nat]" by (simp add: upt_rec)
  have n: "np_arange ((- (3 - 1)) div 2) (3 div 2 + 1) 1 = Inr [- 1, 0, 1]"
    by (simp add: np_arange_def arange_len_def u)
  have s1: "np_sinc (of_int (- 1) - 1 / 2) = - 2 / (3 * pi)"
    using np_sinc_below[of "1 / 2" 1] by (simp add: field_simps)
  have s2: "np_sinc (of_int 0 - 1 / 2) = 2 / pi"
    using np_sinc_below[of "1 / 2" 0] by (simp add: field_simps)
  have s3: "np_sinc (of_int 1 - 1 / 2) = 2 / pi"
    using np_sinc_above[of "1 / 2" 1] by (simp add: field_simps)
  have w: "np_hamming 3 = [8 / 100, 1, 8 / 100]"
    by (simp add: np_hamming_def u)
  have m: "np_multiply [- 2 / (3 * pi), 2 / pi, 2 / pi] (np_hamming 3)
             = Inr [- 16 / (300 * pi), 2 / pi, 16 / (100 * pi)]"
    unfolding w by (simp add: np_multiply_def)
  have t: "sum_list [- 16 / (300 * pi), 2 / pi, 16 / (100 * pi)] = 158 / (75 * pi)"
    by (simp add: field_simps)
  have p: "(158 / (75 * pi) = 0) = False" by simp
  show ?thesis
    unfolding sinc_delay_kernel_def n bindE_def sum.case list.map s1 s2 s3 m t p
    by (simp add: field_simps)
qed

lemma fractionaldelay_example:
  "fractionaldelay
     \<lparr>self_rc_taps = 3, self_rolloff = 3 / 10, self_sps = 8,
      self_raised_cosine = [], self_zero_crossings = [],
      self_int_delay = None, self_frac_delay = Some (1 / 2), self_sinc_taps = Some 3,
      self_snr = None, self_pulse_shaped = [1, 1, 1], self_pulse_shaped_delayed = [],
      self_pulse_shaped_delayed_noise = Float64 []\<rparr> False
   = Inr (\<lparr>self_rc_taps = 3, self_rolloff = 3 / 10, self_sps = 8,
           self_raised_cosine = [], self_zero_crossings = [],
           self_int_delay = None, self_frac_delay = Some (1 / 2), self_sinc_taps = Some 3,
           self_snr = None, self_pulse_shaped = [1, 1, 1],
           self_pulse_shaped_delayed = [73 / 79, 1, 81 / 79],
           self_pulse_shaped_delayed_noise = Float64 []\<rparr>, [73 / 79, 1, 81 / 79])"
proof -
  have u: "[0 ..< 3] = [0, 1, 2::nat]" "[0 ..< 5] = [0, 1, 2, 3, 4::nat]"
    by (simp_all add: upt_rec)
  have c: "np_convolve [1, 1, 1] [- (2 / 79), 75 / 79, 6 / 79]
             = Inr [- (2 / 79), 73 / 79, 1, 81 / 79, 6 / 79]"
    by (simp add: np_convolve_def conv_at_def u)
  have t: "trim_edges 3 [- (2 / 79), 73 / 79, 1, 81 / 79, 6 / 79 :: real] = [73 / 79, 1, 81 / 79]"
    by (simp add: trim_edges_def py_slice_def slice_bound_def)
  show ?thesis
    by (simp add: fractionaldelay_def integer_delay_def sinc_delay_kernel_example c t
          bindE_def Let_def)
qed

text \<open>
  C8, the claim as stated fails: the kernel does sum to 1, but the edge-trimmed
  convolution of the constant signal \<open>[1, 1, 1]\<close> with the three-tap kernel for a delay
  of 1/2 is \<open>[73/79, 1, 81/79]\<close>. The first and the last sample see the zeros beyond
  the ends of the signal.
\<close>

theorem fractionaldelay_changes_constant_at_edges:
  "\<not> (\<exists>self'.
        fractionaldelay
          \<lparr>self_rc_taps = 3, self_rolloff = 3 / 10, self_sps = 8,
           self_raised_cosine = [], self_zero_crossings = [],
           self_int_delay = None, self_frac_delay = Some (1 / 2), self_sinc_taps = Some 3,
           self_snr = None, self_pulse_shaped = [1, 1, 1], self_pulse_shaped_delayed = [],
           self_pulse_shaped_delayed_noise = Float64 []\<rparr> False
        = Inr (self', [1, 1, 1]))"
  by (simp add: fractionaldelay_example)

text \<open>
  C8, amended: for every odd tap count \<open>M\<close> and every delay in \<open>(0, 1)\<close> the kernel has
  \<open>M\<close> coefficients that sum to 1; and for \<open>M \<ge> 3\<close>, the edge-trimmed convolution
  of a non-empty constant signal with it has the length of the signal and equals the
  constant at every index at least \<open>(M - 1) / 2\<close> away from both ends.
\<close>

theorem sinc_kernel_unit_sum_constant_interior:
  assumes "odd M" and "1 \<le> M" and "0 < d" and "d < 1"
  shows "(\<exists>ks. sinc_delay_kernel M d = Inr ks \<and> length ks = nat M \<and> sum_list ks = 1)
       \<and> (3 \<le> M \<and> 0 < L \<and> self_pulse_shaped self = replicate L c
            \<and> (self_int_delay self = None \<or> self_int_delay self = Some 0)
            \<and> self_frac_delay self = Some d \<and> self_sinc_taps self = Some M \<longrightarrow>
          (\<exists>self' out. fractionaldelay self False = Inr (self', out) \<and> length out = L
             \<and> (\<forall>i. nat ((M - 1) div 2) \<le> i \<and> i < L - nat ((M - 1) div 2)
                    \<longrightarrow> out ! i = c)))"
proof -
  from assms(1) obtain k where k: "M = 2 * k + 1" by (rule oddE)
  with assms(2) have k0: "0 \<le> k" by simp
  define h where "h = nat k"
  have M: "M = 2 * int h + 1" using k k0 by (simp add: h_def)
  from sinc_delay_kernel_odd[OF assms(3,4), of h] obtain ks where
    ks: "sinc_delay_kernel M d = Inr ks" "length ks = 2 * h + 1" "sum_list ks = 1"
    unfolding M by blast
  have nM: "nat M = 2 * h + 1" unfolding M by (simp add: nat_add_distrib nat_mult_distrib)
  have hM: "nat ((M - 1) div 2) = h" unfolding M by simp
  have first: "\<exists>ks. sinc_delay_kernel M d = Inr ks \<and> length ks = nat M \<and> sum_list ks = 1"
    using ks nM by auto
  have second: "\<exists>self' out. fractionaldelay self False = Inr (self', out) \<and> length out = L
             \<and> (\<forall>i. nat ((M - 1) div 2) \<le> i \<and> i < L - nat ((M - 1) div 2) \<longrightarrow> out ! i = c)"
    if a: "3 \<le> M" "0 < L" "self_pulse_shaped self = replicate L c"
       "self_int_delay self = None \<or> self_int_delay self = Some 0"
       "self_frac_delay self = Some d" "self_sinc_taps self = Some M"
  proof -
    from a(1) have h: "0 < h" unfolding M by simp
    define full where "full = map (conv_at (replicate L c) ks) [0 ..< L + 2 * h]"
    define out where "out = take L (drop h full)"
    have i: "integer_delay self = Inr (replicate L c)"
      using a(3,4) by (auto simp: integer_delay_def)
    have cv: "np_convolve (replicate L c) ks = Inr full"
      using a(2) ks(2) by (auto simp: np_convolve_def full_def)
    have lf: "length full = L + 2 * h" by (simp add: full_def)
    have tr: "trim_edges M full = out"
      unfolding M out_def by (rule trim_edges_odd[OF h lf])
    have f: "fractionaldelay self False = Inr (self\<lparr>self_pulse_shaped_delayed := out\<rparr>, out)"
      using assms(3) a(5,6) by (simp add: fractionaldelay_def i ks(1) cv tr bindE_def Let_def)
    have lo: "length out = L" by (simp add: out_def lf)
    have inner: "out ! i = c" if "h \<le> i" "i < L - h" for i
    proof -
      from that have b: "i < L" "h + i < L + 2 * h" "2 * h \<le> h + i" "h + i < L" by simp_all
      have "out ! i = full ! (h + i)" using b(1,2) by (simp add: out_def lf)
      also have "\<dots> = conv_at (replicate L c) ks (h + i)"
        using b(2) by (simp add: full_def del: upt_Suc)
      also have "\<dots> = c * sum_list ks"
        by (rule conv_at_constant_full_overlap[OF ks(2) b(3) b(4)])
      finally show ?thesis using ks(3) by simp
    qed
    from f lo inner show ?thesis unfolding hM by blast
  qed
  from first second show ?thesis by blast
qed

theorem sinc_kernel_unit_sum_constant_interior_witness:
  "odd (3::int) \<and> (1::int) \<le> 3 \<and> (0::real) < 1 / 2 \<and> (1 / 2 :: real) < 1
   \<and> (\<exists>ks. sinc_delay_kernel 3 (1 / 2) = Inr ks \<and> length ks = nat 3 \<and> sum_list ks = 1)
   \<and> (3::int) \<le> 3 \<and> (0::nat) < 3
   \<and> (\<exists>self' out.
         fractionaldelay
           \<lparr>self_rc_taps = 3, self_rolloff = 3 / 10, self_sps = 8,
            self_raised_cosine = [], self_zero_crossings = [],
            self_int_delay = None, self_frac_delay = Some (1 / 2), self_sinc_taps = Some 3,
            self_snr = None, self_pulse_shaped = replicate 3 1, self_pulse_shaped_delayed = [],
            self_pulse_shaped_delayed_noise = Float64 []\<rparr> False = Inr (self', out)
         \<and> length out = 3 \<and> out ! 1 = 1)"
proof -
  let ?S = "\<lparr>self_rc_taps = 3, self_rolloff = 3 / 10, self_sps = 8,
            self_raised_cosine = [], self_zero_crossings = [],
            self_int_delay = None, self_frac_delay = Some (1 / 2), self_sinc_taps = Some 3,
            self_snr = None, self_pulse_shaped = replicate 3 (1::real), self_pulse_shaped_delayed = [],
            self_pulse_shaped_delayed_noise = Float64 []\<rparr>"
  have h: "odd (3::int)" "(1::int) \<le> 3" "(0::real) < 1 / 2" "(1 / 2 :: real) < 1"
    by simp_all
  note t = sinc_kernel_unit_sum_constant_interior[OF h, of 3 ?S 1]
  from t have k: "\<exists>ks. sinc_delay_kernel 3 (1 / 2) = Inr ks \<and> length ks = nat 3 \<and> sum_list ks = 1"
    by blast
  from t obtain self' out where
    o: "fractionaldelay ?S False = Inr (self', out)" "length out = 3"
       "\<forall>i. nat ((3 - 1) div 2) \<le> i \<and> i < 3 - nat ((3 - 1) div 2) \<longrightarrow> out ! i = 1"
    by auto
  from o(3) have "out ! 1 = 1" by simp
  with o(1,2) have e: "\<exists>self' out. fractionaldelay ?S False = Inr (self', out)
         \<and> length out = 3 \<and> out ! 1 = 1" by blast
  from k e show ?thesis by simp
qed

subsection \<open>Noise\<close>

lemma map2_add_zeros:
  fixes xs :: "'a::monoid_add list"
  shows "map2 (+) xs (map (\<lambda>k. 0) [0 ..< length xs]) = xs"
  by (rule nth_equalityI) simp_all

text \<open>\<open>10 ** x\<close> inside and outside the range of float64.\<close>

lemma py_pow10_in_range:
  assumes "1 / 2 ^ 1075 < (10::real) powr x" and "(10::real) powr x < 2 ^ 1024 - 2 ^ 970"
  shows "py_pow10 x = Inr (10 powr x)"
  using assms by (simp add: py_pow10_def)

lemma py_pow10_underflow: "py_pow10 (- 400) = Inr 0"
proof -
  have p: "(10::real) powr (- 400) = 1 / 10 ^ 400"
  proof -
    have "(10::real) powr (- real 400) = inverse (10 powr real 400)" by (rule powr_minus)
    also have "(10::real) powr real 400 = 10 ^ 400" by (rule powr_realpow) simp
    finally show ?thesis by (simp only: inverse_eq_divide of_nat_numeral)
  qed
  have a: "\<not> (2 ^ 1024 - 2 ^ 970 \<le> (1 / 10 ^ 400 :: real))" by simp
  have b: "(1 / 10 ^ 400 :: real) \<le> 1 / 2 ^ 1075" by simp
  show ?thesis unfolding py_pow10_def p using a b by (simp only: if_False if_True)
qed

lemma py_pow10_overflow: "py_pow10 400 = Inl OverflowError"
proof -
  have p: "(10::real) powr 400 = 10 ^ 400"
  proof -
    have "(10::real) powr real 400 = 10 ^ 400" by (rule powr_realpow) simp
    then show ?thesis by (simp only: of_nat_numeral)
  qed
  have a: "2 ^ 1024 - 2 ^ 970 \<le> (10 ^ 400 :: real)" by simp
  show ?thesis unfolding py_pow10_def p using a by (simp only: if_True)
qed

text \<open>
  C9, the claim as stated fails: for a zero signal and the finite SNR value -4000 the
  power \<open>10 ** (snr / 10)\<close> underflows to 0.0, \<open>noise\<close> divides 0.0 by 0.0 and the
  result is nan samples, not the signal; for the SNR value 4000 the power raises
  OverflowError.
\<close>

theorem noise_extreme_snr_not_unchanged:
  "noise (\<lambda>k. 1) (\<lambda>k. - 1)
     \<lparr>self_rc_taps = 3, self_rolloff = 3 / 10, self_sps = 8,
      self_raised_cosine = [], self_zero_crossings = [],
      self_int_delay = None, self_frac_delay = None, self_sinc_taps = None,
      self_snr = Some (- 4000), self_pulse_shaped = [0, 0], self_pulse_shaped_delayed = [0, 0],
      self_pulse_shaped_delayed_noise = Float64 []\<rparr> False
     = Inl NotANumber
   \<and> noise (\<lambda>k. 1) (\<lambda>k. - 1)
     \<lparr>self_rc_taps = 3, self_rolloff = 3 / 10, self_sps = 8,
      self_raised_cosine = [], self_zero_crossings = [],
      self_int_delay = None, self_frac_delay = None, self_sinc_taps = None,
      self_snr = Some 4000, self_pulse_shaped = [0, 0], self_pulse_shaped_delayed = [0, 0],
      self_pulse_shaped_delayed_noise = Float64 []\<rparr> False
     = Inl OverflowError"
proof -
  have a: "(- 4000 :: real) / 10 = - 400" "(4000 :: real) / 10 = 400" by simp_all
  show ?thesis
    unfolding noise_def by (simp add: a py_pow10_underflow py_pow10_overflow bindE_def)
qed

text \<open>
  C9, amended: when the mean squared amplitude of the delayed signal is zero and
  \<open>10 ** (snr / 10)\<close> is a finite float64 that is not zero (an SNR between about -3236
  and 3082), \<open>noise\<close> divides by that non-zero number, the variance is zero, and the
  result is the signal unchanged, as a float64 array or, with \<open>is_complex\<close>, as the
  same values in a complex128 array.
\<close>

theorem noise_zero_power_unchanged_in_range:
  assumes "self_snr self = Some snr"
    and "self_pulse_shaped_delayed self \<noteq> []"
    and "np_mean (map (\<lambda>a. a\<^sup>2) (self_pulse_shaped_delayed self)) = 0"
    and "1 / 2 ^ 1075 < (10::real) powr (snr / 10)"
    and "(10::real) powr (snr / 10) < 2 ^ 1024 - 2 ^ 970"
  shows "py_pow10 (snr / 10) = Inr (10 powr (snr / 10))
       \<and> (10::real) powr (snr / 10) \<noteq> 0
       \<and> noise z1 z2 self False
           = Inr (self\<lparr>self_pulse_shaped_delayed_noise := Float64 (self_pulse_shaped_delayed self)\<rparr>,
                  Float64 (self_pulse_shaped_delayed self))
       \<and> noise z1 z2 self True
           = Inr (self\<lparr>self_pulse_shaped_delayed_noise :=
                         Complex128 (map of_real (self_pulse_shaped_delayed self))\<rparr>,
                  Complex128 (map of_real (self_pulse_shaped_delayed self)))"
proof -
  note p = py_pow10_in_range[OF assms(4,5)]
  have "map2 (+) (map complex_of_real (self_pulse_shaped_delayed self))
          (map (\<lambda>k. 0) [0 ..< length (self_pulse_shaped_delayed self)])
        = map complex_of_real (self_pulse_shaped_delayed self)"
    using map2_add_zeros[of "map complex_of_real (self_pulse_shaped_delayed self)"] by simp
  with assms(1,3) map2_add_zeros[of "self_pulse_shaped_delayed self"] p
  show ?thesis by (simp add: noise_def bindE_def Let_def)
qed

theorem noise_zero_power_unchanged_in_range_witness:
  "self_snr
      \<lparr>self_rc_taps = 3, self_rolloff = 3 / 10, self_sps = 8,
       self_raised_cosine = [], self_zero_crossings = [],
       self_int_delay = None, self_frac_delay = None, self_sinc_taps = None,
       self_snr = Some 20, self_pulse_shaped = [0, 0], self_pulse_shaped_delayed = [0, 0],
       self_pulse_shaped_delayed_noise = Float64 []\<rparr> = Some 20
   \<and> [0, 0 :: real] \<noteq> []
   \<and> np_mean (map (\<lambda>a. a\<^sup>2) [0, 0 :: real]) = 0
   \<and> 1 / 2 ^ 1075 < (10::real) powr (20 / 10)
   \<and> (10::real) powr (20 / 10) < 2 ^ 1024 - 2 ^ 970
   \<and> py_pow10 (20 / 10) = Inr 100
   \<and> noise (\<lambda>k. 1) (\<lambda>k. - 1)
         \<lparr>self_rc_taps = 3, self_rolloff = 3 / 10, self_sps = 8,
          self_raised_cosine = [], self_zero_crossings = [],
          self_int_delay = None, self_frac_delay = None, self_sinc_taps = None,
          self_snr = Some 20, self_pulse_shaped = [0, 0], self_pulse_shaped_delayed = [0, 0],
          self_pulse_shaped_delayed_noise = Float64 []\<rparr> False
       = Inr (\<lparr>self_rc_taps = 3, self_rolloff = 3 / 10, self_sps = 8,
               self_raised_cosine = [], self_zero_crossings = [],
               self_int_delay = None, self_frac_delay = None, self_sinc_taps = None,
               self_snr = Some 20, self_pulse_shaped = [0, 0],
               self_pulse_shaped_delayed = [0, 0],
               self_pulse_shaped_delayed_noise = Float64 [0, 0]\<rparr>, Float64 [0, 0])
   \<and> noise (\<lambda>k. 1) (\<lambda>k. - 1)
         \<lparr>self_rc_taps = 3, self_rolloff = 3 / 10, self_sps = 8,
          self_raised_cosine = [], self_zero_crossings = [],
          self_int_delay = None, self_frac_delay = None, self_sinc_taps = None,
          self_snr = Some 20, self_pulse_shaped = [0, 0], self_pulse_shaped_delayed = [0, 0],
          self_pulse_shaped_delayed_noise = Float64 []\<rparr> True
       = Inr (\<lparr>self_rc_taps = 3, self_rolloff = 3 / 10, self_sps = 8,
               self_raised_cosine = [], self_zero_crossings = [],
               self_int_delay = None, self_frac_delay = None, self_sinc_taps = None,
               self_snr = Some 20, self_pulse_shaped = [0, 0],
               self_pulse_shaped_delayed = [0, 0],
               self_pulse_shaped_delayed_noise = Complex128 [0, 0]\<rparr>, Complex128 [0, 0])"
proof -
  let ?S = "\<lparr>self_rc_taps = 3, self_rolloff = 3 / 10, self_sps = 8,
          self_raised_cosine = [], self_zero_crossings = [],
          self_int_delay = None, self_frac_delay = None, self_sinc_taps = None,
          self_snr = Some 20, self_pulse_shaped = [0, 0],
          self_pulse_shaped_delayed = [0, 0 :: real],
          self_pulse_shaped_delayed_noise = Float64 []\<rparr>"
  have h1: "self_snr ?S = Some 20" by simp
  have h2: "self_pulse_shaped_delayed ?S \<noteq> []" by simp
  have h3: "np_mean (map (\<lambda>a. a\<^sup>2) (self_pulse_shaped_delayed ?S)) = 0"
    by (simp add: np_mean_def)
  have p: "(10::real) powr (20 / 10) = 100" by simp
  have h4: "1 / 2 ^ 1075 < (10::real) powr (20 / 10)" unfolding p by simp
  have h5: "(10::real) powr (20 / 10) < 2 ^ 1024 - 2 ^ 970" unfolding p by simp
  note t = noise_zero_power_unchanged_in_range[OF h1 h2 h3 h4 h5, of "\<lambda>k. 1" "\<lambda>k. - 1"]
  have k: "py_pow10 (20 / 10) = Inr 100" using t p by (simp only:)
  from t h3 h4 h5 k show ?thesis by simp
qed

end
